theory Spec2Isabelle
  imports Complex_Main "HOL-Library.Word" "HOL-Library.Sublist"
begin

chapter \<open>SkyBin renter: storage manager, download pipeline, metadata client\<close>

section \<open>Storage manager (package renter, storage manager source)\<close>

subsection \<open>Data\<close>

text \<open>
  A freelist entry. The struct is declared in another file of the package; the fields
  are the four the storage manager reads and writes (\<open>ProviderId\<close>, \<open>Addr\<close>,
  \<open>Amount\<close>, \<open>ContractId\<close>). \<open>Amount\<close> is an \<open>int64\<close>: it is added to an
  \<open>int64\<close> accumulator and compared with the \<open>int64\<close> blob size, so it is a 64-bit
  word here, with wrap-around arithmetic and signed comparisons.
\<close>

record storageBlob =
  ProviderId :: string
  Addr :: string
  Amount :: "64 word"
  ContractId :: string

text \<open>
  \<open>time.Time\<close> is a point on an integer time line (nanoseconds), \<open>time.Duration\<close>
  an \<open>int64\<close> count of nanoseconds. \<open>t.Before(u)\<close> is \<open>t < u\<close>; \<open>t.Sub(u)\<close>
  saturates at the largest and smallest duration.
\<close>

type_synonym time = int

definition maxDuration :: int where
  "maxDuration = 2 ^ 63 - 1"

definition minDuration :: int where
  "minDuration = - (2 ^ 63)"

definition Sub :: "time \<Rightarrow> time \<Rightarrow> int" where
  "Sub t u =
     (let d = t - u
      in if d > maxDuration then maxDuration
         else if d < minDuration then minDuration
         else d)"

text \<open>
  The manager's state. The three collaborators that answer differently at every call
  are sequences with a read position: \<open>clock\<close> (the \<open>clock\<close> interface, \<open>Now()\<close>),
  \<open>updateFn\<close> (the refresh function, returning an error text or a fresh list) and
  \<open>randSrc\<close> (the process-wide generator of \<open>math/rand\<close> behind \<open>rand.Intn\<close>).
  The freelist is a slice of pointers to blobs; its entries are taken to be distinct
  objects, so the list holds the blobs themselves and a candidate refers to an entry by
  its index.
\<close>

record storageManager =
  freelist :: "storageBlob list"
  offlinePvdrs :: "string \<rightharpoonup> time"
  updateFn :: "nat \<Rightarrow> string + storageBlob list"
  updateCalls :: nat
  updateFreq :: int
  lastCacheUpdate :: time
  clock :: "nat \<Rightarrow> time"
  clockReads :: nat
  randSrc :: "nat \<Rightarrow> nat"
  randCalls :: nat

datatype storage_error =
    InsufficientStorage  \<comment> \<open>\<open>errors.New("Cannot find enough storage.")\<close>\<close>
  | IndexOutOfRange      \<comment> \<open>run-time panic of a slice index\<close>

subsection \<open>Collaborators\<close>

definition Now :: "storageManager \<Rightarrow> time \<times> storageManager" where
  "Now sm = (clock sm (clockReads sm), sm\<lparr>clockReads := Suc (clockReads sm)\<rparr>)"

text \<open>\<open>rand.Intn(n)\<close> for \<open>n > 0\<close>: a number in \<open>[0, n)\<close>. Both call sites have \<open>n > 0\<close>.\<close>

definition Intn :: "storageManager \<Rightarrow> nat \<Rightarrow> nat \<times> storageManager" where
  "Intn sm n = (randSrc sm (randCalls sm) mod n, sm\<lparr>randCalls := Suc (randCalls sm)\<rparr>)"

subsection \<open>Cache refresh\<close>

text \<open>
  \<open>shuffleBlobs\<close>: for \<open>i\<close> from \<open>len - 1\<close> down to \<open>0\<close>, swap entries \<open>i\<close> and
  \<open>rand.Intn(i + 1)\<close>. The first argument of the loop is \<open>i + 1\<close>.
\<close>

fun shuffle_loop :: "nat \<Rightarrow> storageBlob list \<Rightarrow> storageManager
    \<Rightarrow> storageBlob list \<times> storageManager" where
  "shuffle_loop 0 blobs sm = (blobs, sm)"
| "shuffle_loop (Suc i) blobs sm =
     (case Intn sm (Suc i) of
        (j, sm') \<Rightarrow> shuffle_loop i (blobs[i := blobs ! j, j := blobs ! i]) sm')"

definition shuffleBlobs :: "storageBlob list \<Rightarrow> storageManager
    \<Rightarrow> storageBlob list \<times> storageManager" where
  "shuffleBlobs blobs sm = shuffle_loop (length blobs) blobs sm"

definition updateCache :: "storageManager \<Rightarrow> storageManager" where
  "updateCache sm =
     (let sm1 = sm\<lparr>updateCalls := Suc (updateCalls sm)\<rparr>
      in case updateFn sm (updateCalls sm) of
           Inl err \<Rightarrow> sm1
         | Inr blobs \<Rightarrow>
             (case shuffleBlobs blobs sm1 of
                (shuffled, sm2) \<Rightarrow>
                  (case Now (sm2\<lparr>freelist := shuffled\<rparr>) of
                     (now, sm3) \<Rightarrow> sm3\<lparr>lastCacheUpdate := now\<rparr>)))"

definition maybeUpdateCache :: "storageManager \<Rightarrow> storageManager" where
  "maybeUpdateCache sm =
     (if length (freelist sm) = 0 then updateCache sm
      else case Now sm of
             (now, sm1) \<Rightarrow>
               if Sub now (lastCacheUpdate sm1) > updateFreq sm1 then updateCache sm1
               else sm1)"

subsection \<open>Offline providers\<close>

fun markOffline :: "time \<Rightarrow> (string \<rightharpoonup> time) \<Rightarrow> string list \<Rightarrow> (string \<rightharpoonup> time)" where
  "markOffline until off [] = off"
| "markOffline until off (pvdrId # pvdrIds) =
     (let t = (case off pvdrId of
                 None \<Rightarrow> until
               | Some t \<Rightarrow> if t < until then until else t)
      in markOffline until (off(pvdrId \<mapsto> t)) pvdrIds)"

definition MarkProvidersOffline :: "storageManager \<Rightarrow> string list \<Rightarrow> time \<Rightarrow> storageManager" where
  "MarkProvidersOffline sm pvdrIds until =
     sm\<lparr>offlinePvdrs := markOffline until (offlinePvdrs sm) pvdrIds\<rparr>"

definition updateOfflineProviders :: "storageManager \<Rightarrow> storageManager" where
  "updateOfflineProviders sm =
     (case Now sm of
        (now, sm1) \<Rightarrow>
          sm1\<lparr>offlinePvdrs :=
                (\<lambda>pvdrId. case offlinePvdrs sm1 pvdrId of
                             None \<Rightarrow> None
                           | Some t \<Rightarrow> if t < now then None else Some t)\<rparr>)"

subsection \<open>Adding blobs\<close>

fun addBlob_list :: "storageBlob list \<Rightarrow> storageBlob \<Rightarrow> storageBlob list" where
  "addBlob_list [] blob = [blob]"
| "addBlob_list (existingBlob # rest) blob =
     (if ContractId existingBlob = ContractId blob
      then existingBlob\<lparr>Amount := Amount existingBlob + Amount blob\<rparr> # rest
      else existingBlob # addBlob_list rest blob)"

definition addBlob :: "storageManager \<Rightarrow> storageBlob \<Rightarrow> storageManager" where
  "addBlob sm blob = sm\<lparr>freelist := addBlob_list (freelist sm) blob\<rparr>"

definition AddBlobs :: "storageManager \<Rightarrow> storageBlob list \<Rightarrow> storageManager" where
  "AddBlobs sm blobs = foldl addBlob sm blobs"

definition AddBlob :: "storageManager \<Rightarrow> storageBlob \<Rightarrow> storageManager" where
  "AddBlob sm blob = AddBlobs sm [blob]"

subsection \<open>Finding storage\<close>

text \<open>
  \<open>findCandidates\<close> scans the whole freelist once, starting at a random index and
  wrapping around, and keeps the index of every entry that is large enough and whose
  provider is not marked offline.
\<close>

definition isCandidate :: "storageManager \<Rightarrow> 64 word \<Rightarrow> nat \<Rightarrow> bool" where
  "isCandidate sm blobSize idx =
     (blobSize \<le>s Amount (freelist sm ! idx)
      \<and> offlinePvdrs sm (ProviderId (freelist sm ! idx)) = None)"

definition findCandidates :: "storageManager \<Rightarrow> 64 word \<Rightarrow> nat list \<times> storageManager" where
  "findCandidates sm blobSize =
     (if length (freelist sm) = 0 then ([], sm)
      else case Intn sm (length (freelist sm)) of
             (startIdx, sm1) \<Rightarrow>
               (filter (isCandidate sm1 blobSize)
                  (map (\<lambda>curr. curr mod length (freelist sm1))
                     [startIdx ..< startIdx + length (freelist sm1)]),
                sm1))"

text \<open>
  The selection loop of \<open>findStorage\<close>. Its state is the cursor \<open>i\<close>, the blobs
  produced so far, the remaining candidates and the freelist, whose entries the
  candidates point into. \<open>None\<close> is the panic of \<open>candidates[i]\<close> out of range.
  A candidate of the program holds a pointer to its freelist entry; an index that is not
  one of the freelist has no counterpart there and is put with the panic
  (\<open>findStorage_no_panic\<close> below: neither happens).
\<close>

function findStorage_loop :: "int \<Rightarrow> 64 word \<Rightarrow> nat \<Rightarrow> storageBlob list \<Rightarrow> nat list
    \<Rightarrow> storageBlob list \<Rightarrow> (storageBlob list \<times> storageBlob list) option" where
  "findStorage_loop nblobs blobSize i blobs candidates fl =
     (if int (length blobs) < nblobs \<and> length candidates > 0 then
        if i < length candidates \<and> candidates ! i < length fl then
          let idx = candidates ! i;
              candidate = fl ! idx;
              blob = \<lparr>ProviderId = ProviderId candidate, Addr = Addr candidate,
                      Amount = blobSize, ContractId = ContractId candidate\<rparr>;
              blobs' = blobs @ [blob];
              candidate' = candidate\<lparr>Amount := Amount candidate - Amount blob\<rparr>;
              fl' = fl[idx := candidate'];
              candidates' = (if Amount candidate' <s blobSize
                             then take i candidates @ drop (i + 1) candidates
                             else candidates)
          in if length candidates' = 0 then Some (blobs', fl')
             else findStorage_loop nblobs blobSize ((i + 1) mod length candidates')
                    blobs' candidates' fl'
        else None
      else Some (blobs, fl))"
  by pat_completeness auto
termination
  by (relation "measure (\<lambda>(nblobs, blobSize, i, blobs, candidates, fl).
                  nat (nblobs - int (length blobs)))") auto

text \<open>
  \<open>kMinBlobSize\<close> is a constant of the package declared in another file; it is a
  parameter here.
\<close>

definition findStorage :: "64 word \<Rightarrow> storageManager \<Rightarrow> int \<Rightarrow> 64 word
    \<Rightarrow> (storage_error + storageBlob list) \<times> storageManager" where
  "findStorage kMinBlobSize sm nblobs blobSize =
     (case findCandidates sm blobSize of
        (candidates, sm1) \<Rightarrow>
          (case findStorage_loop nblobs blobSize 0 [] candidates (freelist sm1) of
             None \<Rightarrow> (Inl IndexOutOfRange, sm1)
           | Some (blobs, fl) \<Rightarrow>
               if int (length blobs) < nblobs
               then (Inl InsufficientStorage, foldl addBlob (sm1\<lparr>freelist := fl\<rparr>) blobs)
               else (Inr blobs,
                     sm1\<lparr>freelist := filter (\<lambda>b. \<not> Amount b <s kMinBlobSize) fl\<rparr>)))"

definition FindStorage :: "64 word \<Rightarrow> storageManager \<Rightarrow> int \<Rightarrow> 64 word
    \<Rightarrow> (storage_error + storageBlob list) \<times> storageManager" where
  "FindStorage kMinBlobSize sm nblobs blobSize =
     findStorage kMinBlobSize (updateOfflineProviders (maybeUpdateCache sm)) nblobs blobSize"

definition totalAmount :: "storageBlob list \<Rightarrow> 64 word" where
  "totalAmount blobs = sum_list (map Amount blobs)"

definition AvailableStorage :: "storageManager \<Rightarrow> 64 word \<times> storageManager" where
  "AvailableStorage sm =
     (let sm1 = updateCache sm in (totalAmount (freelist sm1), sm1))"

section \<open>Download pipeline (package renter, download.go)\<close>

subsection \<open>Data\<close>

text \<open>
  The records of package \<open>core\<close>, with the fields the download code reads. Field names that two structs share get the
  struct's name in front.
\<close>

type_synonym bytes = "8 word list"

record BlockLocation =
  loc_ProviderId :: string
  loc_Addr :: string

record Block =
  block_ID :: string
  Size :: int
  Sha256Hash :: string
  Location :: BlockLocation

record Version =
  Num :: int
  NumDataBlocks :: int
  NumParityBlocks :: int
  PaddingBytes :: int
  Blocks :: "Block list"

record Permission =
  RenterId :: string
  perm_AesKey :: string
  perm_AesIV :: string

record File =
  ID :: string
  Name :: string
  IsDir :: bool
  OwnerID :: string
  AesKey :: string
  AesIV :: string
  AccessList :: "Permission list"
  Versions :: "Version list"

text \<open>
  Errors of the package, one constructor for each place that makes one; an argument is
  the text of the error that is passed on or wrapped.
\<close>

datatype renter_error =
    GetFileError string
  | VersionWithFolder      \<comment> \<open>"Cannot give version option with folder download"\<close>
  | DefaultLocationError string
  | NoVersions             \<comment> \<open>"File has no versions"\<close>
  | CannotFindVersion int  \<comment> \<open>"Cannot find version %d"\<close>
  | MkdirError string
  | CannotCreateFolder string renter_error \<comment> \<open>"Unable to create folder %s. Error: %s"\<close>
  | ChildHasNoVersions string \<comment> \<open>"File %s has no versions to download."\<close>
  | TempFileError string   \<comment> \<open>"Cannot create temp file. Error: %s"\<close>
  | BlocksIndexOutOfRange  \<comment> \<open>run-time panic of \<open>version.Blocks[i]\<close>\<close>
  | InsufficientShards     \<comment> \<open>"Failed to download enough file data blocks."\<close>
  | FinishDownloadError string
  | TransportError string  \<comment> \<open>the error of \<open>client.GetBlock\<close>, passed on\<close>
  | CannotWriteBlock string \<comment> \<open>"Cannot write block to local file. Error: %s"\<close>
  | CorruptSize            \<comment> \<open>"Corrupted block: block has incorrect size."\<close>
  | SeekError string       \<comment> \<open>"Error checking block hash. Error: %s" (seek)\<close>
  | HashReadError string   \<comment> \<open>"Error checking block hash. Error: %s" (read)\<close>
  | CorruptHash            \<comment> \<open>"Corrupted block: block hash does not match that expected."\<close>
  | NotPermitted           \<comment> \<open>"could not find permission in access list"\<close>
  | Base64Error string
  | DecryptKeyError string \<comment> \<open>"Unable to decrypt aes key. Error: %v"\<close>
  | DecryptIVError string  \<comment> \<open>"Unable to decrypt aes IV. Error: %v"\<close>

record BlockDownloadInfo =
  BlockId :: string
  info_ProviderId :: string
  info_Location :: string
  Error :: "renter_error option"

record FileDownloadInfo =
  FileId :: string
  info_Name :: string
  info_IsDir :: bool
  VersionNum :: int
  DestPath :: string
  info_Blocks :: "BlockDownloadInfo list"

record DownloadInfo =
  Files :: "FileDownloadInfo list"

text \<open>The \<open>TotalTimeMs\<close> fields (wall-clock measurements) are left out.\<close>

subsection \<open>Collaborators\<close>

text \<open>
  Library functions: SHA-256, the base64url codec and RSA-OAEP decryption under a
  private key of type \<open>'k\<close>.
\<close>

record 'k library =
  sha256 :: "bytes \<Rightarrow> bytes"
  EncodeToString :: "bytes \<Rightarrow> string"
  DecodeString :: "string \<Rightarrow> string + bytes"
  DecryptOAEP :: "'k \<Rightarrow> bytes \<Rightarrow> string + bytes"

text \<open>
  What the outside does during one block fetch: the creation of the temp file, the
  answer of the provider (\<open>client.GetBlock\<close>: an error, or a reader and the bytes
  it will deliver), the copy into the temp file, the rewind and the second read for the
  hash. \<open>None\<close> is success.
\<close>

record block_io =
  tempFile :: "string option"
  getBlock :: "string + bytes"
  copyErr :: "string option"
  seekErr :: "string option"
  hashErr :: "string option"

text \<open>
  The rest of the environment. \<open>Renter_GetFile\<close> (\<open>r.GetFile\<close>) and
  \<open>findChildren\<close> are methods of the renter defined in other files of the package;
  \<open>defaultDownloadLocation\<close> asks the operating system for the home directory and
  for a file name that is not taken, and its answer is a parameter; \<open>Join\<close> is
  \<open>path.Join\<close>; \<open>MkdirAll\<close> is \<open>os.MkdirAll\<close>. \<open>blockIO f i\<close> is the
  behaviour of the outside during fetch \<open>i\<close> of the \<open>f\<close>-th file of the
  operation. \<open>finishDownload\<close> (reconstruction, decryption and decompression into the
  destination) neither creates a directory nor requests a block; its outcome (success,
  or the text of its error or panic) is a parameter.
\<close>

record environment =
  Renter_GetFile :: "string \<Rightarrow> string + File"
  defaultDownloadLocation :: "File \<Rightarrow> string + string"
  findChildren :: "File \<Rightarrow> File list"
  Join :: "string \<Rightarrow> string \<Rightarrow> string"
  MkdirAll :: "string \<Rightarrow> string option"
  blockIO :: "nat \<Rightarrow> nat \<Rightarrow> block_io"
  finishDownload :: "File \<Rightarrow> Version \<Rightarrow> string \<Rightarrow> bytes option list \<Rightarrow> bool
                     \<Rightarrow> string option"

record 'k Renter =
  Config_RenterId :: string
  privKey :: 'k

text \<open>What the operation does to the outside: block requests and directory creations.\<close>

datatype effect =
    BlockRequest string string string  \<comment> \<open>provider address, renter id, block id\<close>
  | DirCreate string

subsection \<open>Fetching one block\<close>

text \<open>\<open>Inr\<close> is success and carries the content of the temp file.\<close>

definition downloadBlock :: "'k library \<Rightarrow> block_io \<Rightarrow> string \<Rightarrow> Block
    \<Rightarrow> renter_error + bytes" where
  "downloadBlock lib bio renterId block =
     (case getBlock bio of
        Inl err \<Rightarrow> Inl (TransportError err)
      | Inr delivered \<Rightarrow>
          (case copyErr bio of
             Some err \<Rightarrow> Inl (CannotWriteBlock err)
           | None \<Rightarrow>
               if int (length delivered) \<noteq> Size block then Inl CorruptSize
               else (case seekErr bio of
                       Some err \<Rightarrow> Inl (SeekError err)
                     | None \<Rightarrow>
                         (case hashErr bio of
                            Some err \<Rightarrow> Inl (HashReadError err)
                          | None \<Rightarrow>
                              if EncodeToString lib (sha256 lib delivered) \<noteq> Sha256Hash block
                              then Inl CorruptHash
                              else Inr delivered))))"

subsection \<open>Fetching the blocks of a version\<close>

record download_state =
  successes :: int
  failures :: int
  blockFiles :: "bytes option list"
  blockInfos :: "BlockDownloadInfo list"
  effects :: "effect list"

definition initial_state :: download_state where
  "initial_state = \<lparr>successes = 0, failures = 0, blockFiles = [], blockInfos = [], effects = []\<rparr>"

text \<open>
  The loop of \<open>performFileDownload\<close>, from index \<open>i\<close>. The first component of the
  result is the error that ends the whole download inside the loop, if any.
\<close>

function download_loop :: "'k library \<Rightarrow> (nat \<Rightarrow> block_io) \<Rightarrow> File \<Rightarrow> Version \<Rightarrow> nat
    \<Rightarrow> download_state \<Rightarrow> renter_error option \<times> download_state" where
  "download_loop lib io file version i st =
     (if successes st < NumDataBlocks version \<and> failures st \<le> NumParityBlocks version then
        (case tempFile (io i) of
           Some err \<Rightarrow> (Some (TempFileError err), st)
         | None \<Rightarrow>
             if length (Blocks version) \<le> i then (Some BlocksIndexOutOfRange, st)
             else
               let block = Blocks version ! i;
                   blockInfo = \<lparr>BlockId = block_ID block,
                                info_ProviderId = loc_ProviderId (Location block),
                                info_Location = loc_Addr (Location block),
                                Error = None\<rparr>;
                   st1 = st\<lparr>effects := effects st @
                            [BlockRequest (loc_Addr (Location block)) (OwnerID file)
                               (block_ID block)]\<rparr>
               in (case downloadBlock lib (io i) (OwnerID file) block of
                     Inr temp \<Rightarrow>
                       download_loop lib io file version (i + 1)
                         (st1\<lparr>successes := successes st + 1,
                              blockFiles := blockFiles st @ [Some temp],
                              blockInfos := blockInfos st @ [blockInfo]\<rparr>)
                   | Inl err \<Rightarrow>
                       download_loop lib io file version (i + 1)
                         (st1\<lparr>failures := failures st + 1,
                              blockFiles := blockFiles st @ [None],
                              blockInfos := blockInfos st @ [blockInfo\<lparr>Error := Some err\<rparr>]\<rparr>)))
      else (None, st))"
  by pat_completeness auto
termination
  by (relation "measure (\<lambda>(lib, io, file, version, i, st).
                  nat (NumDataBlocks version - successes st)
                  + nat (NumParityBlocks version + 1 - failures st))") auto

definition performFileDownload :: "'k library \<Rightarrow> environment \<Rightarrow> nat \<Rightarrow> File \<Rightarrow> Version
    \<Rightarrow> string \<Rightarrow> effect list \<times> (renter_error + BlockDownloadInfo list)" where
  "performFileDownload lib env f file version destPath =
     (case download_loop lib (blockIO env f) file version 0 initial_state of
        (Some err, st) \<Rightarrow> (effects st, Inl err)
      | (None, st) \<Rightarrow>
          if successes st < NumDataBlocks version then (effects st, Inl InsufficientShards)
          else (case finishDownload env file version destPath (blockFiles st) (failures st > 0) of
                  Some err \<Rightarrow> (effects st, Inl (FinishDownloadError err))
                | None \<Rightarrow> (effects st, Inr (blockInfos st))))"

definition downloadFile :: "'k library \<Rightarrow> environment \<Rightarrow> nat \<Rightarrow> File \<Rightarrow> Version \<Rightarrow> string
    \<Rightarrow> effect list \<times> (renter_error + FileDownloadInfo)" where
  "downloadFile lib env f file version destPath =
     (case performFileDownload lib env f file version destPath of
        (effs, Inl err) \<Rightarrow> (effs, Inl err)
      | (effs, Inr blockInfo) \<Rightarrow>
          (effs, Inr \<lparr>FileId = ID file, info_Name = Name file, info_IsDir = False,
                      VersionNum = Num version, DestPath = destPath,
                      info_Blocks = blockInfo\<rparr>))"

subsection \<open>Key recovery\<close>

definition decryptEncryptionKeys :: "'k library \<Rightarrow> 'k Renter \<Rightarrow> File
    \<Rightarrow> renter_error + bytes \<times> bytes" where
  "decryptEncryptionKeys lib r f =
     (case (if OwnerID f = Config_RenterId r then (AesKey f, AesIV f)
            else foldl (\<lambda>(key, iv) permission.
                          if RenterId permission = Config_RenterId r
                          then (perm_AesKey permission, perm_AesIV permission)
                          else (key, iv))
                   ('''', '''') (AccessList f)) of
        (keyToDecrypt, ivToDecrypt) \<Rightarrow>
          if keyToDecrypt = '''' \<or> ivToDecrypt = '''' then Inl NotPermitted
          else (case DecodeString lib keyToDecrypt of
                  Inl err \<Rightarrow> Inl (Base64Error err)
                | Inr keyBytes \<Rightarrow>
                    (case DecodeString lib ivToDecrypt of
                       Inl err \<Rightarrow> Inl (Base64Error err)
                     | Inr ivBytes \<Rightarrow>
                         (case DecryptOAEP lib (privKey r) keyBytes of
                            Inl err \<Rightarrow> Inl (DecryptKeyError err)
                          | Inr aesKey \<Rightarrow>
                              (case DecryptOAEP lib (privKey r) ivBytes of
                                 Inl err \<Rightarrow> Inl (DecryptIVError err)
                               | Inr aesIV \<Rightarrow> Inr (aesKey, aesIV))))))"

subsection \<open>Directories and the entry point\<close>

definition mkdir :: "environment \<Rightarrow> File \<Rightarrow> string
    \<Rightarrow> effect list \<times> (renter_error + FileDownloadInfo)" where
  "mkdir env dir destPath =
     ([DirCreate destPath],
      case MkdirAll env destPath of
        Some err \<Rightarrow> Inl (MkdirError err)
      | None \<Rightarrow> Inr \<lparr>FileId = ID dir, info_Name = Name dir, info_IsDir = True,
                      VersionNum = 0, DestPath = destPath, info_Blocks = []\<rparr>)"

definition TrimPrefix :: "string \<Rightarrow> string \<Rightarrow> string" where
  "TrimPrefix s pre = (if prefix pre s then drop (length pre) s else s)"

text \<open>
  The loop of \<open>performDirDownload\<close> over the children; \<open>f\<close> numbers the files of the
  operation, \<open>effs\<close> and \<open>fileSummaries\<close> are what has been done and collected so far.
\<close>

fun children_loop :: "'k library \<Rightarrow> environment \<Rightarrow> File \<Rightarrow> string \<Rightarrow> nat \<Rightarrow> File list
    \<Rightarrow> effect list \<Rightarrow> FileDownloadInfo list
    \<Rightarrow> effect list \<times> (renter_error + FileDownloadInfo list)" where
  "children_loop lib env dir destPath f [] effs fileSummaries = (effs, Inr fileSummaries)"
| "children_loop lib env dir destPath f (child # children) effs fileSummaries =
     (let relPath = TrimPrefix (Name child) (Name dir @ ''/'');
          fullPath = Join env destPath relPath
      in if IsDir child then
           (case mkdir env child fullPath of
              (effs', Inl err) \<Rightarrow> (effs @ effs', Inl (CannotCreateFolder fullPath err))
            | (effs', Inr dirInfo) \<Rightarrow>
                children_loop lib env dir destPath (f + 1) children (effs @ effs')
                  (fileSummaries @ [dirInfo]))
         else if length (Versions child) = 0 then (effs, Inl (ChildHasNoVersions (Name child)))
         else (case downloadFile lib env f child (last (Versions child)) fullPath of
                 (effs', Inl err) \<Rightarrow> (effs @ effs', Inl err)
               | (effs', Inr fileInfo) \<Rightarrow>
                   children_loop lib env dir destPath (f + 1) children (effs @ effs')
                     (fileSummaries @ [fileInfo])))"

definition performDirDownload :: "'k library \<Rightarrow> environment \<Rightarrow> File \<Rightarrow> string
    \<Rightarrow> effect list \<times> (renter_error + FileDownloadInfo list)" where
  "performDirDownload lib env dir destPath =
     (case mkdir env dir destPath of
        (effs, Inl err) \<Rightarrow> (effs, Inl err)
      | (effs, Inr dirInfo) \<Rightarrow>
          children_loop lib env dir destPath 0 (findChildren env dir) effs [dirInfo])"

definition downloadDir :: "'k library \<Rightarrow> environment \<Rightarrow> File \<Rightarrow> string
    \<Rightarrow> effect list \<times> (renter_error + DownloadInfo)" where
  "downloadDir lib env dir destPath =
     (case performDirDownload lib env dir destPath of
        (effs, Inl err) \<Rightarrow> (effs, Inl err)
      | (effs, Inr fileInfo) \<Rightarrow> (effs, Inr \<lparr>Files = fileInfo\<rparr>))"

definition findVersion :: "File \<Rightarrow> int \<Rightarrow> Version option" where
  "findVersion file versionNum = find (\<lambda>v. Num v = versionNum) (Versions file)"

text \<open>\<open>versionNum\<close> is a pointer to an \<open>int\<close>: \<open>None\<close> is \<open>nil\<close>.\<close>

definition Download :: "'k library \<Rightarrow> environment \<Rightarrow> string \<Rightarrow> string \<Rightarrow> int option
    \<Rightarrow> effect list \<times> (renter_error + DownloadInfo)" where
  "Download lib env fileId destPath versionNum =
     (case Renter_GetFile env fileId of
        Inl err \<Rightarrow> ([], Inl (GetFileError err))
      | Inr file \<Rightarrow>
          if IsDir file \<and> versionNum \<noteq> None then ([], Inl VersionWithFolder)
          else
            (case (if length destPath = 0 then defaultDownloadLocation env file
                   else Inr destPath) of
               Inl err \<Rightarrow> ([], Inl (DefaultLocationError err))
             | Inr destPath' \<Rightarrow>
                 if IsDir file then downloadDir lib env file destPath'
                 else if length (Versions file) = 0 then ([], Inl NoVersions)
                 else
                   (case (case versionNum of
                            None \<Rightarrow> Inr (last (Versions file))
                          | Some n \<Rightarrow>
                              (case findVersion file n of
                                 None \<Rightarrow> Inl (CannotFindVersion n)
                               | Some v \<Rightarrow> Inr v)) of
                      Inl err \<Rightarrow> ([], Inl err)
                    | Inr version \<Rightarrow>
                        (case downloadFile lib env 0 file version destPath' of
                           (effs, Inl err) \<Rightarrow> (effs, Inl err)
                         | (effs, Inr fileInfo) \<Rightarrow> (effs, Inr \<lparr>Files = [fileInfo]\<rparr>)))))"

section \<open>Metadata client (package metaserver, client.go)\<close>

text \<open>
  Each method of the client is followed up to the point where it hands a request to the
  HTTP transport (\<open>client.client.Do\<close>, \<open>Post\<close> or \<open>Get\<close>): the result is the
  error it returns before that point, or the request it sends. What it does with the
  response is left out. \<open>AuthorizeRenter\<close> and \<open>AuthorizeProvider\<close> run the
  handshake that obtains the token and store it in \<open>token\<close>; a client that has not
  authorized holds the empty token.
\<close>

record Client =
  addr :: string
  token :: string

record http_request =
  Method :: string
  URL :: string
  Header :: "(string \<times> string) list"
  Body :: "string option"

datatype client_error =
    MustAuthorize        \<comment> \<open>"must authorize before calling this method"\<close>
  | MarshalError string  \<comment> \<open>the error of \<open>json.Marshal\<close>\<close>
  | RequestError string  \<comment> \<open>the error of \<open>http.NewRequest\<close>\<close>

text \<open>
  \<open>http.NewRequest\<close> fails when the URL does not parse; \<open>urlErr\<close> gives the error
  for a URL, if any. \<open>client.Post\<close> and \<open>client.Get\<close> build their request the same
  way; \<open>Post\<close> sets the content type.
\<close>

definition NewRequest :: "(string \<Rightarrow> string option) \<Rightarrow> string \<Rightarrow> string \<Rightarrow> string option
    \<Rightarrow> client_error + http_request" where
  "NewRequest urlErr method url body =
     (case urlErr url of
        Some err \<Rightarrow> Inl (RequestError err)
      | None \<Rightarrow> Inr \<lparr>Method = method, URL = url, Header = [], Body = body\<rparr>)"

definition Post :: "(string \<Rightarrow> string option) \<Rightarrow> string \<Rightarrow> string \<Rightarrow> string
    \<Rightarrow> client_error + http_request" where
  "Post urlErr url contentType body =
     (case NewRequest urlErr ''POST'' url (Some body) of
        Inl err \<Rightarrow> Inl err
      | Inr req \<Rightarrow> Inr (req\<lparr>Header := [(''Content-Type'', contentType)]\<rparr>))"

definition Get :: "(string \<Rightarrow> string option) \<Rightarrow> string \<Rightarrow> client_error + http_request" where
  "Get urlErr url = NewRequest urlErr ''GET'' url None"

text \<open>
  The steps that every method with a token check repeats, in the order of the code:
  the check of the token, \<open>json.Marshal\<close> of the payload if there is one (its result
  is \<open>payload\<close>), \<open>http.NewRequest\<close>, and the \<open>Authorization\<close> header.
\<close>

definition authorized :: "(string \<Rightarrow> string option) \<Rightarrow> Client \<Rightarrow> string \<Rightarrow> string
    \<Rightarrow> (string + string) option \<Rightarrow> client_error + http_request" where
  "authorized urlErr client method url payload =
     (if token client = '''' then Inl MustAuthorize
      else (case payload of
              Some (Inl err) \<Rightarrow> Inl (MarshalError err)
            | _ \<Rightarrow>
                (case NewRequest urlErr method url
                        (case payload of Some (Inr b) \<Rightarrow> Some b | _ \<Rightarrow> None) of
                   Inl err \<Rightarrow> Inl err
                 | Inr req \<Rightarrow>
                     Inr (req\<lparr>Header := Header req @
                                [(''Authorization'', ''Bearer '' @ token client)]\<rparr>))))"

text \<open>\<open>%d\<close> of \<open>fmt.Sprintf\<close>.\<close>

fun digits :: "nat \<Rightarrow> string" where
  "digits n = (if n < 10 then [''0123456789'' ! n]
               else digits (n div 10) @ [''0123456789'' ! (n mod 10)])"

definition itoa :: "int \<Rightarrow> string" where
  "itoa i = (if i < 0 then CHR ''-'' # digits (nat (- i)) else digits (nat i))"

text \<open>
  The methods, with their arguments as far as the request depends on them: the ids
  that go into the URL, and for a payload the result of \<open>json.Marshal\<close>.
\<close>

datatype client_op =
    RegisterProvider "string + string"
  | GetProviders
  | GetProvider string
  | UpdateProvider string "string + string"
  | DeleteProvider string
  | RegisterRenter "string + string"
  | GetRenter string
  | UpdateRenter string "string + string"
  | DeleteRenter string
  | PostFile string "string + string"
  | UpdateFile string string "string + string"
  | GetFile string string
  | GetFiles string
  | DeleteFile string string
  | PostFileVersion string string "string + string"
  | PutFileVersion string string int "string + string"
  | GetFileVersion string string int
  | GetFileVersions string string
  | DeleteFileVersion string string int
  | GetSharedFile string string
  | ShareFile string string "string + string"
  | UnshareFile string string string
  | GetSharedFiles string
  | RemoveSharedFile string string
  | PostContract string "string + string"
  | GetContract string string
  | GetRenterContracts string
  | DeleteContract string string

fun call :: "(string \<Rightarrow> string option) \<Rightarrow> Client \<Rightarrow> client_op
    \<Rightarrow> client_error + http_request" where
  "call u c (RegisterProvider info) =
     (case info of
        Inl err \<Rightarrow> Inl (MarshalError err)
      | Inr body \<Rightarrow> Post u (''http://'' @ addr c @ ''/providers'') ''application/json'' body)"
| "call u c GetProviders = Get u (''http://'' @ addr c @ ''/providers'')"
| "call u c (GetProvider providerID) =
     Get u (''http://'' @ addr c @ ''/providers/'' @ providerID)"
| "call u c (UpdateProvider providerID provider) =
     authorized u c ''PUT'' (''http://'' @ addr c @ ''/providers/'' @ providerID)
       (Some provider)"
| "call u c (DeleteProvider providerID) =
     authorized u c ''DELETE'' (''http://'' @ addr c @ ''/providers/'' @ providerID) None"
| "call u c (RegisterRenter info) =
     (case info of
        Inl err \<Rightarrow> Inl (MarshalError err)
      | Inr body \<Rightarrow> Post u (''http://'' @ addr c @ ''/renters'') ''application/json'' body)"
| "call u c (GetRenter renterID) =
     authorized u c ''GET'' (''http://'' @ addr c @ ''/renters/'' @ renterID) None"
| "call u c (UpdateRenter renterID renter) =
     authorized u c ''PUT'' (''http://'' @ addr c @ ''/renters/'' @ renterID) (Some renter)"
| "call u c (DeleteRenter renterID) =
     authorized u c ''DELETE'' (''http://'' @ addr c @ ''/renters/'' @ renterID) None"
| "call u c (PostFile renterID file) =
     authorized u c ''POST'' (''http://'' @ addr c @ ''/renters/'' @ renterID @ ''/files'')
       (Some file)"
| "call u c (UpdateFile renterID fileID file) =
     authorized u c ''PUT''
       (''http://'' @ addr c @ ''/renters/'' @ renterID @ ''/files/'' @ fileID) (Some file)"
| "call u c (GetFile renterID fileID) =
     authorized u c ''GET''
       (''http://'' @ addr c @ ''/renters/'' @ renterID @ ''/files/'' @ fileID) None"
| "call u c (GetFiles renterID) =
     authorized u c ''GET'' (''http://'' @ addr c @ ''/renters/'' @ renterID @ ''/files'') None"
| "call u c (DeleteFile renterID fileID) =
     authorized u c ''DELETE''
       (''http://'' @ addr c @ ''/renters/'' @ renterID @ ''/files/'' @ fileID) None"
| "call u c (PostFileVersion renterID fileID version) =
     authorized u c ''POST''
       (''http://'' @ addr c @ ''/renters/'' @ renterID @ ''/files/'' @ fileID @ ''/versions'')
       (Some version)"
| "call u c (PutFileVersion renterID fileID number version) =
     authorized u c ''PUT''
       (''http://'' @ addr c @ ''/renters/'' @ renterID @ ''/files/'' @ fileID
          @ ''/versions/'' @ itoa number)
       (Some version)"
| "call u c (GetFileVersion renterID fileID fileVersion) =
     authorized u c ''GET''
       (''http://'' @ addr c @ ''/renters/'' @ renterID @ ''/files/'' @ fileID
          @ ''/versions/'' @ itoa fileVersion)
       None"
| "call u c (GetFileVersions renterID fileID) =
     authorized u c ''GET''
       (''http://'' @ addr c @ ''/renters/'' @ renterID @ ''/files/'' @ fileID @ ''/versions'')
       None"
| "call u c (DeleteFileVersion renterID fileID fileVersion) =
     authorized u c ''DELETE''
       (''http://'' @ addr c @ ''/renters/'' @ renterID @ ''/files/'' @ fileID
          @ ''/versions/'' @ itoa fileVersion)
       None"
| "call u c (GetSharedFile renterID fileID) =
     authorized u c ''GET''
       (''http://'' @ addr c @ ''/renters/'' @ renterID @ ''/shared/'' @ fileID) None"
| "call u c (ShareFile renterID fileID permission) =
     authorized u c ''POST''
       (''http://'' @ addr c @ ''/renters/'' @ renterID @ ''/files/'' @ fileID
          @ ''/permissions'')
       (Some permission)"
| "call u c (UnshareFile renterID fileID userID) =
     authorized u c ''DELETE''
       (''http://'' @ addr c @ ''/renters/'' @ renterID @ ''/files/'' @ fileID
          @ ''/permissions/'' @ userID)
       None"
| "call u c (GetSharedFiles renterID) =
     authorized u c ''GET'' (''http://'' @ addr c @ ''/renters/'' @ renterID @ ''/shared'') None"
| "call u c (RemoveSharedFile renterID fileID) =
     authorized u c ''DELETE''
       (''http://'' @ addr c @ ''/renters/'' @ renterID @ ''/shared/'' @ fileID) None"
| "call u c (PostContract renterID contract) =
     authorized u c ''POST'' (''http://'' @ addr c @ ''/renters/'' @ renterID @ ''/contracts'')
       (Some contract)"
| "call u c (GetContract renterID contractID) =
     authorized u c ''GET''
       (''http://'' @ addr c @ ''/renters/'' @ renterID @ ''/contracts/'' @ contractID) None"
| "call u c (GetRenterContracts renterID) =
     authorized u c ''GET'' (''http://'' @ addr c @ ''/renters/'' @ renterID @ ''/contracts'')
       None"
| "call u c (DeleteContract renterID contractID) =
     authorized u c ''DELETE''
       (''http://'' @ addr c @ ''/renters/'' @ renterID @ ''/contracts/'' @ contractID) None"

section \<open>Upload pipeline: shard size and padding\<close>

text \<open>
  Modelled from the spec: the upload pipeline (the code that chooses the shard size and the
  padding) is not among the source files covered here. The specification's step reads: choose
  shard size \<open>s = \<lceil>L / k\<rceil>\<close>; \<open>padding = s\<cdot>k - L\<close>. For \<open>k > 0\<close> the ceiling
  of \<open>L / k\<close> is \<open>- ((- L) div k)\<close> (\<open>shardSize_ceiling\<close> below).
\<close>

definition shardSize :: "int \<Rightarrow> int \<Rightarrow> int" where
  "shardSize L k = - ((- L) div k)"

definition padding :: "int \<Rightarrow> int \<Rightarrow> int" where
  "padding L k = shardSize L k * k - L"

section \<open>Notions used in the statements\<close>

subsection \<open>The budget of a download\<close>

text \<open>
  The outcome of fetch \<open>j\<close> of a version, the number of successful fetches among the
  first \<open>j\<close>, and whether the loop goes on after \<open>j\<close> fetches: fewer than
  \<open>k\<close> successes and at most \<open>m\<close> failures. Then the request, the temp file and
  the info that belong to fetch \<open>j\<close>.
\<close>

definition fetch_result :: "'k library \<Rightarrow> (nat \<Rightarrow> block_io) \<Rightarrow> File \<Rightarrow> Version \<Rightarrow> nat
    \<Rightarrow> renter_error + bytes" where
  "fetch_result lib io file version j =
     downloadBlock lib (io j) (OwnerID file) (Blocks version ! j)"

definition fetched :: "'k library \<Rightarrow> (nat \<Rightarrow> block_io) \<Rightarrow> File \<Rightarrow> Version \<Rightarrow> nat \<Rightarrow> nat" where
  "fetched lib io file version j =
     length (filter (\<lambda>i. \<not> isl (fetch_result lib io file version i)) [0..<j])"

definition budget_left :: "'k library \<Rightarrow> (nat \<Rightarrow> block_io) \<Rightarrow> File \<Rightarrow> Version \<Rightarrow> nat \<Rightarrow> bool" where
  "budget_left lib io file version j =
     (int (fetched lib io file version j) < NumDataBlocks version
      \<and> int j - int (fetched lib io file version j) \<le> NumParityBlocks version)"

definition block_request :: "File \<Rightarrow> Version \<Rightarrow> nat \<Rightarrow> effect" where
  "block_request file version j =
     BlockRequest (loc_Addr (Location (Blocks version ! j))) (OwnerID file)
       (block_ID (Blocks version ! j))"

definition block_file :: "'k library \<Rightarrow> (nat \<Rightarrow> block_io) \<Rightarrow> File \<Rightarrow> Version \<Rightarrow> nat
    \<Rightarrow> bytes option" where
  "block_file lib io file version j =
     (case fetch_result lib io file version j of Inl err \<Rightarrow> None | Inr temp \<Rightarrow> Some temp)"

definition block_info :: "'k library \<Rightarrow> (nat \<Rightarrow> block_io) \<Rightarrow> File \<Rightarrow> Version \<Rightarrow> nat
    \<Rightarrow> BlockDownloadInfo" where
  "block_info lib io file version j =
     \<lparr>BlockId = block_ID (Blocks version ! j),
      info_ProviderId = loc_ProviderId (Location (Blocks version ! j)),
      info_Location = loc_Addr (Location (Blocks version ! j)),
      Error = (case fetch_result lib io file version j of
                 Inl err \<Rightarrow> Some err | Inr temp \<Rightarrow> None)\<rparr>"

subsection \<open>The key-selection rule\<close>

text \<open>
  The rule in the words of the specification: the owner uses the key and IV of the file;
  anyone else uses those of the one access-list entry with the caller's id; otherwise
  there is no key.
\<close>

definition key_selection_rule :: "string \<Rightarrow> File \<Rightarrow> (string \<times> string) option" where
  "key_selection_rule caller f =
     (if caller = OwnerID f then Some (AesKey f, AesIV f)
      else (case filter (\<lambda>p. RenterId p = caller) (AccessList f) of
              [p] \<Rightarrow> Some (perm_AesKey p, perm_AesIV p)
            | _ \<Rightarrow> None))"

subsection \<open>Calls that need a token\<close>

text \<open>
  The two classes of calls the specification names. A mutating call creates, replaces
  or deletes a record: its request is a \<open>POST\<close>, a \<open>PUT\<close> or a \<open>DELETE\<close>.
  A renter read is a \<open>GET\<close> below \<open>/renters/<id>\<close>. Lemma \<open>call_classes\<close>
  checks both against the requests the methods build. The registrations are the two
  calls that create a principal's own record.
\<close>

fun mutating :: "client_op \<Rightarrow> bool" where
  "mutating (RegisterProvider _) = True"
| "mutating (UpdateProvider _ _) = True"
| "mutating (DeleteProvider _) = True"
| "mutating (RegisterRenter _) = True"
| "mutating (UpdateRenter _ _) = True"
| "mutating (DeleteRenter _) = True"
| "mutating (PostFile _ _) = True"
| "mutating (UpdateFile _ _ _) = True"
| "mutating (DeleteFile _ _) = True"
| "mutating (PostFileVersion _ _ _) = True"
| "mutating (PutFileVersion _ _ _ _) = True"
| "mutating (DeleteFileVersion _ _ _) = True"
| "mutating (ShareFile _ _ _) = True"
| "mutating (UnshareFile _ _ _) = True"
| "mutating (RemoveSharedFile _ _) = True"
| "mutating (PostContract _ _) = True"
| "mutating (DeleteContract _ _) = True"
| "mutating _ = False"

fun renterRead :: "client_op \<Rightarrow> bool" where
  "renterRead (GetRenter _) = True"
| "renterRead (GetFile _ _) = True"
| "renterRead (GetFiles _) = True"
| "renterRead (GetFileVersion _ _ _) = True"
| "renterRead (GetFileVersions _ _) = True"
| "renterRead (GetSharedFile _ _) = True"
| "renterRead (GetSharedFiles _) = True"
| "renterRead (GetContract _ _) = True"
| "renterRead (GetRenterContracts _) = True"
| "renterRead _ = False"

fun registration :: "client_op \<Rightarrow> bool" where
  "registration (RegisterProvider _) = True"
| "registration (RegisterRenter _) = True"
| "registration _ = False"

section \<open>Example inputs\<close>

text \<open>
  Small inputs on which the definitions are evaluated. The example library is a toy: its
  hash is the identity, its encoding writes \<open>A\<close> for a zero byte and \<open>B\<close> for any
  other, and its decryption reverses the ciphertext.
\<close>

definition example_blob :: "string \<Rightarrow> 64 word \<Rightarrow> storageBlob" where
  "example_blob name amount =
     \<lparr>ProviderId = ''provider-'' @ name, Addr = name @ '':8003'', Amount = amount,
      ContractId = ''contract-'' @ name\<rparr>"

definition example_manager :: "storageBlob list \<Rightarrow> storageManager" where
  "example_manager blobs =
     \<lparr>freelist = blobs, offlinePvdrs = Map.empty,
      updateFn = (\<lambda>call. Inl ''metaserver unreachable''), updateCalls = 0,
      updateFreq = 1000, lastCacheUpdate = 0,
      clock = (\<lambda>reading. 50 + int reading), clockReads = 0,
      randSrc = (\<lambda>call. 0), randCalls = 0\<rparr>"

definition rollback_manager :: storageManager where
  "rollback_manager = example_manager [example_blob ''a'' 200, example_blob ''b'' 200]"

definition skewed_manager :: storageManager where
  "skewed_manager =
     example_manager [example_blob ''a'' 2, example_blob ''b'' 1, example_blob ''c'' 1]"

definition offline_manager :: storageManager where
  "offline_manager =
     (example_manager [example_blob ''a'' 10, example_blob ''b'' 10])
       \<lparr>offlinePvdrs := [''provider-a'' \<mapsto> 100]\<rparr>"

definition stale_manager :: storageManager where
  "stale_manager = (example_manager [example_blob ''a'' 200])\<lparr>updateFreq := 1\<rparr>"

definition example_library :: "unit library" where
  "example_library =
     \<lparr>sha256 = (\<lambda>data. data),
      EncodeToString = map (\<lambda>b. if b = 0 then CHR ''A'' else CHR ''B''),
      DecodeString = (\<lambda>s. Inr (map (\<lambda>ch. if ch = CHR ''A'' then 0 else 1) s)),
      DecryptOAEP = (\<lambda>key ciphertext. Inr (rev ciphertext))\<rparr>"

definition example_block :: "string \<Rightarrow> bytes \<Rightarrow> Block" where
  "example_block name content =
     \<lparr>block_ID = ''block-'' @ name, Size = int (length content),
      Sha256Hash = EncodeToString example_library (sha256 example_library content),
      Location = \<lparr>loc_ProviderId = ''provider-'' @ name, loc_Addr = name @ '':8003''\<rparr>\<rparr>"

definition example_version :: Version where
  "example_version =
     \<lparr>Num = 1, NumDataBlocks = 2, NumParityBlocks = 1, PaddingBytes = 0,
      Blocks = [example_block ''a'' [0, 1], example_block ''b'' [1, 0],
                example_block ''c'' [1, 1]]\<rparr>"

definition example_file :: File where
  "example_file =
     \<lparr>ID = ''file-1'', Name = ''notes.txt'', IsDir = False, OwnerID = ''alice'',
      AesKey = ''AB'', AesIV = ''BA'',
      AccessList = [\<lparr>RenterId = ''bob'', perm_AesKey = ''ABB'', perm_AesIV = ''BAA''\<rparr>],
      Versions = [example_version]\<rparr>"

definition example_folder :: File where
  "example_folder =
     \<lparr>ID = ''dir-1'', Name = ''docs'', IsDir = True, OwnerID = ''alice'',
      AesKey = '''', AesIV = '''', AccessList = [], Versions = []\<rparr>"

definition delivers :: "bytes \<Rightarrow> block_io" where
  "delivers content =
     \<lparr>tempFile = None, getBlock = Inr content, copyErr = None, seekErr = None,
      hashErr = None\<rparr>"

definition unreachable :: block_io where
  "unreachable =
     \<lparr>tempFile = None, getBlock = Inl ''connection refused'', copyErr = None,
      seekErr = None, hashErr = None\<rparr>"

definition example_environment :: environment where
  "example_environment =
     \<lparr>Renter_GetFile = (\<lambda>fileId. if fileId = ''dir-1'' then Inr example_folder
                                  else if fileId = ''file-1'' then Inr example_file
                                  else Inl ''no such file''),
      defaultDownloadLocation = (\<lambda>f. Inr (''/home/alice/'' @ Name f)),
      findChildren = (\<lambda>dir. [example_file\<lparr>Name := ''docs/notes.txt''\<rparr>]),
      Join = (\<lambda>dir rel. dir @ ''/'' @ rel),
      MkdirAll = (\<lambda>path. None),
      blockIO = (\<lambda>f i. if i = 0 then unreachable
                         else if i = 1 then delivers [1, 0]
                         else delivers [1, 1]),
      finishDownload = (\<lambda>f version destPath blockFiles needsReconstruction. None)\<rparr>"

definition example_client :: Client where
  "example_client = \<lparr>addr = ''meta:8001'', token = ''''\<rparr>"

section \<open>Properties of the storage manager\<close>

subsection \<open>Totals\<close>

declare findStorage_loop.simps [simp del]

lemma totalAmount_update:
  "idx < length fl \<Longrightarrow>
   totalAmount (fl[idx := (fl ! idx)\<lparr>Amount := a\<rparr>]) = totalAmount fl - Amount (fl ! idx) + a"
  unfolding totalAmount_def
proof (induction fl arbitrary: idx)
  case Nil
  then show ?case by simp
next
  case (Cons b fl)
  then show ?case by (cases idx) (simp_all add: algebra_simps)
qed

lemma totalAmount_addBlob_list:
  "totalAmount (addBlob_list fl blob) = totalAmount fl + Amount blob"
  unfolding totalAmount_def by (induction fl) (simp_all add: algebra_simps)

lemma freelist_foldl_addBlob:
  "freelist (foldl addBlob sm blobs) = foldl addBlob_list (freelist sm) blobs"
  by (induction blobs arbitrary: sm) (simp_all add: addBlob_def)

lemma totalAmount_foldl_addBlob_list:
  "totalAmount (foldl addBlob_list fl blobs) = totalAmount fl + totalAmount blobs"
proof (induction blobs arbitrary: fl)
  case Nil
  then show ?case by (simp add: totalAmount_def)
next
  case (Cons b blobs)
  have "totalAmount (b # blobs) = Amount b + totalAmount blobs"
    by (simp add: totalAmount_def)
  then show ?case
    by (simp add: Cons.IH totalAmount_addBlob_list algebra_simps)
qed

lemma totalAmount_snoc: "totalAmount (blobs @ [b]) = totalAmount blobs + Amount b"
  by (simp add: totalAmount_def)

lemma findStorage_loop_total:
  "findStorage_loop nblobs blobSize i blobs candidates fl = Some (blobs', fl') \<Longrightarrow>
   totalAmount fl' + totalAmount blobs' = totalAmount fl + totalAmount blobs"
proof (induction nblobs blobSize i blobs candidates fl rule: findStorage_loop.induct)
  case (1 nblobs blobSize i blobs candidates fl)
  show ?case
    using "1.prems" "1.IH"
    apply (subst (asm) findStorage_loop.simps)
    apply (auto simp: Let_def totalAmount_update totalAmount_snoc algebra_simps split: if_splits)
    done
qed

subsection \<open>The selection loop\<close>

lemma set_remove_at: "set (take i xs @ drop (i + 1) xs) \<subseteq> set xs"
  by (auto dest: in_set_takeD in_set_dropD)

lemma findStorage_loop_no_panic:
  "candidates = [] \<or> i < length candidates \<Longrightarrow>
   \<forall>c\<in>set candidates. c < length fl \<Longrightarrow>
   findStorage_loop nblobs blobSize i blobs candidates fl \<noteq> None"
proof (induction nblobs blobSize i blobs candidates fl rule: findStorage_loop.induct)
  case (1 nblobs blobSize i blobs candidates fl)
  show ?case
  proof (cases "int (length blobs) < nblobs \<and> length candidates > 0")
    case False
    then show ?thesis
      by (subst findStorage_loop.simps) auto
  next
    case True
    with "1.prems" have i: "i < length candidates" and c: "candidates ! i < length fl"
      by auto
    define candidate' where
      "candidate' = (fl ! (candidates ! i))\<lparr>Amount := Amount (fl ! (candidates ! i)) - blobSize\<rparr>"
    define candidates' where
      "candidates' = (if Amount candidate' <s blobSize
                      then take i candidates @ drop (i + 1) candidates else candidates)"
    have sub: "set candidates' \<subseteq> set candidates"
      using set_remove_at [of i candidates] by (auto simp: candidates'_def)
    show ?thesis
    proof (cases "length candidates' = 0")
      case True
      then show ?thesis
        using \<open>int (length blobs) < nblobs \<and> length candidates > 0\<close> i c
        by (subst findStorage_loop.simps)
           (simp add: Let_def candidates'_def candidate'_def)
    next
      case False
      have "findStorage_loop nblobs blobSize ((i + 1) mod length candidates')
              (blobs @ [\<lparr>ProviderId = ProviderId (fl ! (candidates ! i)),
                          Addr = Addr (fl ! (candidates ! i)), Amount = blobSize,
                          ContractId = ContractId (fl ! (candidates ! i))\<rparr>])
              candidates' (fl[candidates ! i := candidate']) \<noteq> None"
      proof (rule "1.IH" [OF True _ refl refl refl refl _ refl _ False])
        show "i < length candidates \<and> candidates ! i < length fl" using i c by simp
        show "candidate' = (fl ! (candidates ! i))\<lparr>Amount := Amount (fl ! (candidates ! i)) -
                Amount \<lparr>ProviderId = ProviderId (fl ! (candidates ! i)),
                          Addr = Addr (fl ! (candidates ! i)), Amount = blobSize,
                          ContractId = ContractId (fl ! (candidates ! i))\<rparr>\<rparr>"
          by (simp add: candidate'_def)
        show "candidates' = (if Amount candidate' <s blobSize
                then take i candidates @ drop (i + 1) candidates else candidates)"
          by (simp add: candidates'_def)
        show "candidates' = [] \<or> (i + 1) mod length candidates' < length candidates'"
          using False by simp
        show "\<forall>c\<in>set candidates'. c < length (fl[candidates ! i := candidate'])"
          using sub "1.prems"(2) by auto
      qed
      then show ?thesis
        using \<open>int (length blobs) < nblobs \<and> length candidates > 0\<close> i c False
        by (subst findStorage_loop.simps)
           (simp add: Let_def candidates'_def candidate'_def)
    qed
  qed
qed

lemma findStorage_loop_length:
  "findStorage_loop nblobs blobSize i blobs candidates fl = Some (blobs', fl') \<Longrightarrow>
   int (length blobs) \<le> nblobs \<Longrightarrow> int (length blobs') \<le> nblobs"
proof (induction nblobs blobSize i blobs candidates fl rule: findStorage_loop.induct)
  case (1 nblobs blobSize i blobs candidates fl)
  show ?case
    using "1.prems" "1.IH"
    apply (subst (asm) findStorage_loop.simps)
    apply (auto simp: Let_def split: if_splits)
    done
qed

lemma drawn_nth_update:
  "idx < length fl \<Longrightarrow>
   \<lparr>ProviderId = ProviderId (fl[idx := (fl ! idx)\<lparr>Amount := a\<rparr>] ! c),
    Addr = Addr (fl[idx := (fl ! idx)\<lparr>Amount := a\<rparr>] ! c), Amount = blobSize,
    ContractId = ContractId (fl[idx := (fl ! idx)\<lparr>Amount := a\<rparr>] ! c)\<rparr> =
   \<lparr>ProviderId = ProviderId (fl ! c), Addr = Addr (fl ! c), Amount = blobSize,
    ContractId = ContractId (fl ! c)\<rparr>"
  by (cases "c = idx") simp_all

lemma findStorage_loop_drawn:
  "findStorage_loop nblobs blobSize i blobs candidates fl = Some (blobs', fl') \<Longrightarrow>
   b \<in> set blobs' \<Longrightarrow>
   b \<in> set blobs \<or>
   (\<exists>c\<in>set candidates.
      b = \<lparr>ProviderId = ProviderId (fl ! c), Addr = Addr (fl ! c), Amount = blobSize,
           ContractId = ContractId (fl ! c)\<rparr>)"
proof (induction nblobs blobSize i blobs candidates fl rule: findStorage_loop.induct)
  case (1 nblobs blobSize i blobs candidates fl)
  show ?case
  proof (cases "int (length blobs) < nblobs \<and> length candidates > 0")
    case False
    with "1.prems" show ?thesis
      by (subst (asm) findStorage_loop.simps) (auto split: if_splits)
  next
    case True
    with "1.prems" have i: "i < length candidates" and c: "candidates ! i < length fl"
      by (subst (asm) findStorage_loop.simps, auto split: if_splits)+
    define idx where "idx = candidates ! i"
    define blob where "blob = \<lparr>ProviderId = ProviderId (fl ! idx), Addr = Addr (fl ! idx),
                                Amount = blobSize, ContractId = ContractId (fl ! idx)\<rparr>"
    define candidate' where "candidate' = (fl ! idx)\<lparr>Amount := Amount (fl ! idx) - Amount blob\<rparr>"
    define candidates' where
      "candidates' = (if Amount candidate' <s blobSize
                      then take i candidates @ drop (i + 1) candidates else candidates)"
    have sub: "set candidates' \<subseteq> set candidates"
      using set_remove_at [of i candidates] by (auto simp: candidates'_def)
    have idx_in: "idx \<in> set candidates"
      using i by (simp add: idx_def)
    have pid: "\<lparr>ProviderId = ProviderId (fl[idx := candidate'] ! c),
                Addr = Addr (fl[idx := candidate'] ! c), Amount = blobSize,
                ContractId = ContractId (fl[idx := candidate'] ! c)\<rparr> =
               \<lparr>ProviderId = ProviderId (fl ! c), Addr = Addr (fl ! c), Amount = blobSize,
                ContractId = ContractId (fl ! c)\<rparr>" for c
      using c drawn_nth_update [of idx fl] by (simp add: candidate'_def idx_def)
    have unfold: "findStorage_loop nblobs blobSize i blobs candidates fl =
        (if length candidates' = 0 then Some (blobs @ [blob], fl[idx := candidate'])
         else findStorage_loop nblobs blobSize ((i + 1) mod length candidates')
                (blobs @ [blob]) candidates' (fl[idx := candidate']))"
      using True i c
      by (subst findStorage_loop.simps)
         (simp add: Let_def idx_def blob_def candidate'_def candidates'_def)
    show ?thesis
    proof (cases "length candidates' = 0")
      case True
      with unfold "1.prems" have "blobs' = blobs @ [blob]" by simp
      with "1.prems"(2) idx_in show ?thesis
        by (auto simp: blob_def)
    next
      case False
      with unfold "1.prems"(1)
      have rec: "findStorage_loop nblobs blobSize ((i + 1) mod length candidates')
                (blobs @ [blob]) candidates' (fl[idx := candidate']) = Some (blobs', fl')"
        by simp
      have "b \<in> set (blobs @ [blob]) \<or>
            (\<exists>c\<in>set candidates'.
               b = \<lparr>ProviderId = ProviderId (fl[idx := candidate'] ! c),
                    Addr = Addr (fl[idx := candidate'] ! c), Amount = blobSize,
                    ContractId = ContractId (fl[idx := candidate'] ! c)\<rparr>)"
        by (rule "1.IH" [OF True _ idx_def refl blob_def refl candidate'_def refl
              candidates'_def False rec "1.prems"(2)]) (use i c in simp)
      then show ?thesis
        unfolding pid using sub idx_in by (auto simp: blob_def)
    qed
  qed
qed

subsection \<open>What the steps change\<close>

lemma shuffle_loop_state:
  "snd (shuffle_loop n blobs sm) = sm\<lparr>randCalls := randCalls sm + n\<rparr>"
  by (induction n arbitrary: blobs sm) (simp_all add: Intn_def)

lemma findCandidates_state:
  "snd (findCandidates sm blobSize) =
     (if freelist sm = [] then sm else sm\<lparr>randCalls := Suc (randCalls sm)\<rparr>)"
  by (simp add: findCandidates_def Intn_def)

lemma findCandidates_freelist:
  "freelist (snd (findCandidates sm blobSize)) = freelist sm"
  by (simp add: findCandidates_state)

lemma findCandidates_valid:
  assumes "c \<in> set (fst (findCandidates sm blobSize))"
  shows "c < length (freelist sm)"
    and "blobSize \<le>s Amount (freelist sm ! c)"
    and "offlinePvdrs sm (ProviderId (freelist sm ! c)) = None"
  using assms
  by (auto simp: findCandidates_def Intn_def isCandidate_def split: if_splits)

lemma findStorage_no_panic:
  "fst (findStorage kMinBlobSize sm nblobs blobSize) \<noteq> Inl IndexOutOfRange"
proof -
  obtain candidates sm1 where fc: "findCandidates sm blobSize = (candidates, sm1)"
    by (cases "findCandidates sm blobSize")
  have fl: "freelist sm1 = freelist sm"
    using findCandidates_freelist [of sm blobSize] fc by simp
  have "\<forall>c\<in>set candidates. c < length (freelist sm1)"
    using findCandidates_valid(1) [of _ sm blobSize] fc fl by simp
  then have "findStorage_loop nblobs blobSize 0 [] candidates (freelist sm1) \<noteq> None"
    by (intro findStorage_loop_no_panic) auto
  then show ?thesis
    by (auto simp: findStorage_def fc split: option.splits)
qed

lemma shuffleBlobs_state:
  "snd (shuffleBlobs blobs sm) = sm\<lparr>randCalls := randCalls sm + length blobs\<rparr>"
  by (simp add: shuffleBlobs_def shuffle_loop_state)

lemma updateCache_failed:
  "updateFn sm (updateCalls sm) = Inl err \<Longrightarrow>
   updateCache sm = sm\<lparr>updateCalls := Suc (updateCalls sm)\<rparr>"
  by (simp add: updateCache_def)

lemma updateCache_refreshed:
  assumes "updateFn sm (updateCalls sm) = Inr blobs"
  shows "updateCache sm =
     sm\<lparr>updateCalls := Suc (updateCalls sm),
        randCalls := randCalls sm + length blobs,
        freelist := fst (shuffleBlobs blobs (sm\<lparr>updateCalls := Suc (updateCalls sm)\<rparr>)),
        clockReads := Suc (clockReads sm),
        lastCacheUpdate := clock sm (clockReads sm)\<rparr>"
proof -
  obtain shuffled sm2 where
    sh: "shuffleBlobs blobs (sm\<lparr>updateCalls := Suc (updateCalls sm)\<rparr>) = (shuffled, sm2)"
    by (cases "shuffleBlobs blobs (sm\<lparr>updateCalls := Suc (updateCalls sm)\<rparr>)")
  then have "sm2 = sm\<lparr>updateCalls := Suc (updateCalls sm),
                        randCalls := randCalls sm + length blobs\<rparr>"
    using shuffleBlobs_state [of blobs "sm\<lparr>updateCalls := Suc (updateCalls sm)\<rparr>"] by simp
  with sh assms show ?thesis
    by (simp add: updateCache_def Now_def)
qed

lemma updateCache_frame:
  "offlinePvdrs (updateCache sm) = offlinePvdrs sm"
  "clock (updateCache sm) = clock sm"
  "updateFn (updateCache sm) = updateFn sm"
  "updateFreq (updateCache sm) = updateFreq sm"
  "updateCalls (updateCache sm) = Suc (updateCalls sm)"
  "clockReads sm \<le> clockReads (updateCache sm)"
  by (cases "updateFn sm (updateCalls sm)";
      simp add: updateCache_failed updateCache_refreshed)+

lemma maybeUpdateCache_frame:
  "offlinePvdrs (maybeUpdateCache sm) = offlinePvdrs sm"
  "clock (maybeUpdateCache sm) = clock sm"
  "updateFn (maybeUpdateCache sm) = updateFn sm"
  "updateFreq (maybeUpdateCache sm) = updateFreq sm"
  "clockReads sm \<le> clockReads (maybeUpdateCache sm)"
  using updateCache_frame [of sm]
    updateCache_frame [of "sm\<lparr>clockReads := Suc (clockReads sm)\<rparr>"]
  by (auto simp: maybeUpdateCache_def Now_def)

lemma updateOfflineProviders_eq:
  "updateOfflineProviders sm =
     sm\<lparr>clockReads := Suc (clockReads sm),
        offlinePvdrs := (\<lambda>pvdrId. case offlinePvdrs sm pvdrId of
                           None \<Rightarrow> None
                         | Some t \<Rightarrow> if t < clock sm (clockReads sm) then None else Some t)\<rparr>"
  by (simp add: updateOfflineProviders_def Now_def)

lemma foldl_addBlob_eq:
  "foldl addBlob s blobs = s\<lparr>freelist := foldl addBlob_list (freelist s) blobs\<rparr>"
  by (induction blobs arbitrary: s) (simp_all add: addBlob_def)

lemma findStorage_state:
  "snd (findStorage kMinBlobSize sm nblobs blobSize) =
     sm\<lparr>randCalls := randCalls (snd (findCandidates sm blobSize)),
        freelist := freelist (snd (findStorage kMinBlobSize sm nblobs blobSize))\<rparr>"
proof -
  obtain candidates sm1 where fc: "findCandidates sm blobSize = (candidates, sm1)"
    by (cases "findCandidates sm blobSize")
  then have sm1: "sm1 = sm\<lparr>randCalls := randCalls sm1\<rparr>"
    using findCandidates_state [of sm blobSize] by (auto split: if_splits)
  have "snd (findStorage kMinBlobSize sm nblobs blobSize) =
        sm1\<lparr>freelist := freelist (snd (findStorage kMinBlobSize sm nblobs blobSize))\<rparr>"
    by (simp add: findStorage_def fc foldl_addBlob_eq split: option.splits prod.splits)
  with sm1 fc show ?thesis
    by (metis snd_conv)
qed

lemma findStorage_frame:
  "offlinePvdrs (snd (findStorage kMinBlobSize sm nblobs blobSize)) = offlinePvdrs sm"
  "clock (snd (findStorage kMinBlobSize sm nblobs blobSize)) = clock sm"
  "clockReads (snd (findStorage kMinBlobSize sm nblobs blobSize)) = clockReads sm"
  "updateFn (snd (findStorage kMinBlobSize sm nblobs blobSize)) = updateFn sm"
  "updateCalls (snd (findStorage kMinBlobSize sm nblobs blobSize)) = updateCalls sm"
  "updateFreq (snd (findStorage kMinBlobSize sm nblobs blobSize)) = updateFreq sm"
  "lastCacheUpdate (snd (findStorage kMinBlobSize sm nblobs blobSize)) = lastCacheUpdate sm"
  by (subst findStorage_state, simp)+

subsection \<open>Roll-back on failure\<close>

lemma findStorage_rollback:
  assumes "findStorage kMinBlobSize sm nblobs blobSize = (Inl InsufficientStorage, sm')"
  shows "totalAmount (freelist sm') = totalAmount (freelist sm)"
proof -
  obtain candidates sm1 where fc: "findCandidates sm blobSize = (candidates, sm1)"
    by (cases "findCandidates sm blobSize")
  have fl: "freelist sm1 = freelist sm"
    using findCandidates_freelist [of sm blobSize] fc by simp
  from assms fc obtain blobs fl' where
    loop: "findStorage_loop nblobs blobSize 0 [] candidates (freelist sm1) = Some (blobs, fl')"
    and sm': "sm' = foldl addBlob (sm1\<lparr>freelist := fl'\<rparr>) blobs"
    by (auto simp: findStorage_def split: option.splits if_splits)
  have "totalAmount fl' + totalAmount blobs = totalAmount (freelist sm1) + totalAmount []"
    by (rule findStorage_loop_total [OF loop])
  moreover have "totalAmount [] = 0"
    by (simp add: totalAmount_def)
  ultimately have "totalAmount (foldl addBlob_list fl' blobs) = totalAmount (freelist sm)"
    by (simp add: totalAmount_foldl_addBlob_list fl)
  then show ?thesis
    by (simp add: sm' freelist_foldl_addBlob)
qed

text \<open>
  Claim C4. Whenever \<open>findStorage\<close> fails with \<open>InsufficientStorage\<close>, the sum of
  the \<open>Amount\<close>s of the freelist after the call is the sum before the call: what the
  selection loop took from the entries, the roll-back (\<open>addBlob\<close> on every blob of the
  partial result) gives back. The sum is the \<open>int64\<close> sum that \<open>AvailableStorage\<close>
  computes, so the equation holds with wrap-around as well. The public \<open>FindStorage\<close>
  runs \<open>findStorage\<close> after the cache and offline steps; when it fails, the total is
  that of the freelist the cache step has left.
\<close>

theorem findStorage_failure_conserves_total:
  "(findStorage kMinBlobSize sm nblobs blobSize = (Inl InsufficientStorage, sm') \<longrightarrow>
      totalAmount (freelist sm') = totalAmount (freelist sm))
   \<and> (FindStorage kMinBlobSize sm nblobs blobSize = (Inl InsufficientStorage, sm'') \<longrightarrow>
      totalAmount (freelist sm'') = totalAmount (freelist (maybeUpdateCache sm)))"
proof (intro conjI impI)
  assume "findStorage kMinBlobSize sm nblobs blobSize = (Inl InsufficientStorage, sm')"
  then show "totalAmount (freelist sm') = totalAmount (freelist sm)"
    by (rule findStorage_rollback)
next
  assume "FindStorage kMinBlobSize sm nblobs blobSize = (Inl InsufficientStorage, sm'')"
  then have "findStorage kMinBlobSize (updateOfflineProviders (maybeUpdateCache sm))
      nblobs blobSize = (Inl InsufficientStorage, sm'')"
    by (simp add: FindStorage_def)
  then have "totalAmount (freelist sm'') =
      totalAmount (freelist (updateOfflineProviders (maybeUpdateCache sm)))"
    by (rule findStorage_rollback)
  then show "totalAmount (freelist sm'') = totalAmount (freelist (maybeUpdateCache sm))"
    by (simp add: updateOfflineProviders_eq)
qed

text \<open>
  The scenario of the specification: two blobs of twice the shard size, five shards
  asked for.
\<close>

theorem rollback_example:
  "fst (findStorage 0 rollback_manager 5 100) = Inl InsufficientStorage
   \<and> fst (FindStorage 0 rollback_manager 5 100) = Inl InsufficientStorage
   \<and> totalAmount (freelist rollback_manager) = 400
   \<and> totalAmount (freelist (maybeUpdateCache rollback_manager)) = 400
   \<and> totalAmount (freelist (snd (findStorage 0 rollback_manager 5 100))) = 400
   \<and> totalAmount (freelist (snd (FindStorage 0 rollback_manager 5 100))) = 400"
proof -
  have failed: "fst (findStorage 0 rollback_manager 5 100) = Inl InsufficientStorage"
    and Failed: "fst (FindStorage 0 rollback_manager 5 100) = Inl InsufficientStorage"
    by code_simp+
  have before: "totalAmount (freelist rollback_manager) = 400"
    and cached: "totalAmount (freelist (maybeUpdateCache rollback_manager)) = 400"
    by code_simp+
  have "findStorage 0 rollback_manager 5 100 =
      (Inl InsufficientStorage, snd (findStorage 0 rollback_manager 5 100))"
    using failed by (simp add: prod_eq_iff)
  moreover have "FindStorage 0 rollback_manager 5 100 =
      (Inl InsufficientStorage, snd (FindStorage 0 rollback_manager 5 100))"
    using Failed by (simp add: prod_eq_iff)
  ultimately
  have "totalAmount (freelist (snd (findStorage 0 rollback_manager 5 100))) =
      totalAmount (freelist rollback_manager)"
    and "totalAmount (freelist (snd (FindStorage 0 rollback_manager 5 100))) =
      totalAmount (freelist (maybeUpdateCache rollback_manager))"
    using findStorage_failure_conserves_total [of 0 rollback_manager 5 100
      "snd (findStorage 0 rollback_manager 5 100)"
      "snd (FindStorage 0 rollback_manager 5 100)"]
    by blast+
  then show ?thesis
    using failed Failed before cached by simp
qed

subsection \<open>The result of a successful search\<close>

lemma findStorage_success:
  assumes "findStorage kMinBlobSize sm nblobs blobSize = (Inr blobs, sm')"
    and "0 \<le> nblobs"
  shows "int (length blobs) = nblobs"
    and "\<forall>b\<in>set blobs. \<exists>c\<in>set (fst (findCandidates sm blobSize)).
           b = \<lparr>ProviderId = ProviderId (freelist sm ! c), Addr = Addr (freelist sm ! c),
                Amount = blobSize, ContractId = ContractId (freelist sm ! c)\<rparr>"
proof -
  obtain candidates sm1 where fc: "findCandidates sm blobSize = (candidates, sm1)"
    by (cases "findCandidates sm blobSize")
  have fl: "freelist sm1 = freelist sm"
    using findCandidates_freelist [of sm blobSize] fc by simp
  from assms(1) fc obtain fl' where
    loop: "findStorage_loop nblobs blobSize 0 [] candidates (freelist sm1) = Some (blobs, fl')"
    and enough: "\<not> int (length blobs) < nblobs"
    by (auto simp: findStorage_def split: option.splits if_splits)
  from findStorage_loop_length [OF loop] assms(2) enough
  show "int (length blobs) = nblobs" by simp
  show "\<forall>b\<in>set blobs. \<exists>c\<in>set (fst (findCandidates sm blobSize)).
           b = \<lparr>ProviderId = ProviderId (freelist sm ! c), Addr = Addr (freelist sm ! c),
                Amount = blobSize, ContractId = ContractId (freelist sm ! c)\<rparr>"
    using findStorage_loop_drawn [OF loop] fc fl by auto
qed

text \<open>
  Claim C5. On success \<open>findStorage\<close> returns exactly \<open>n\<close> blobs of the shard size,
  each drawn from a candidate entry (\<open>findStorage_success\<close> above). The blobs are not
  always drawn from distinct entries when \<open>n\<close> candidates exist: after a candidate is
  dropped from the list the cursor still moves on by one, so the entry that took the
  dropped one's place is skipped. With three candidates of two, one and one shards and a
  scan that starts at index 0, three shards are drawn from the first, the second and the
  first entry again; the third entry is not used.
\<close>

theorem findStorage_repeats_entry:
  "fst (findCandidates skewed_manager 1) = [0, 1, 2]
   \<and> fst (findStorage 1 skewed_manager 3 1) =
       Inr [example_blob ''a'' 1, example_blob ''b'' 1, example_blob ''a'' 1]"
  by code_simp

subsection \<open>Offline providers\<close>

lemma markOffline_other:
  "p \<notin> set pvdrIds \<Longrightarrow> markOffline until off pvdrIds p = off p"
  by (induction pvdrIds arbitrary: off) (auto simp: Let_def)

lemma markOffline_marked:
  "off p = Some t \<Longrightarrow> until \<le> t \<Longrightarrow> markOffline until off pvdrIds p = Some t"
proof (induction pvdrIds arbitrary: off)
  case Nil
  then show ?case by simp
next
  case (Cons q pvdrIds)
  define t' where
    "t' = (case off q of None \<Rightarrow> until | Some t \<Rightarrow> if t < until then until else t)"
  have "(off(q \<mapsto> t')) p = Some t"
    using Cons.prems by (cases "q = p") (auto simp: t'_def)
  then have "markOffline until (off(q \<mapsto> t')) pvdrIds p = Some t"
    using Cons.prems(2) by (rule Cons.IH)
  moreover have "markOffline until off (q # pvdrIds) p =
                 markOffline until (off(q \<mapsto> t')) pvdrIds p"
    by (simp add: Let_def t'_def)
  ultimately show ?case
    by (rule ssubst [rotated])
qed

lemma markOffline_member:
  "p \<in> set pvdrIds \<Longrightarrow>
   markOffline until off pvdrIds p =
     Some (case off p of None \<Rightarrow> until | Some t \<Rightarrow> max t until)"
proof (induction pvdrIds arbitrary: off)
  case Nil
  then show ?case by simp
next
  case (Cons q pvdrIds)
  show ?case
  proof (cases "q = p")
    case True
    define t where "t = (case off p of None \<Rightarrow> until | Some t \<Rightarrow> if t < until then until else t)"
    have t: "until \<le> t"
      by (auto simp: t_def split: option.splits)
    have "markOffline until (off(p \<mapsto> t)) pvdrIds p = Some t"
      by (rule markOffline_marked [OF _ t]) simp
    moreover have "t = (case off p of None \<Rightarrow> until | Some t \<Rightarrow> max t until)"
      by (auto simp: t_def split: option.splits)
    ultimately show ?thesis
      using True by (simp add: Let_def t_def)
  next
    case False
    with Cons.prems have "p \<in> set pvdrIds" by simp
    from Cons.IH [OF this] False show ?thesis
      by (simp add: Let_def)
  qed
qed

lemma offline_kept:
  assumes "offlinePvdrs sm p = Some t"
    and "clock sm (clockReads (maybeUpdateCache sm)) \<le> t"
  shows "offlinePvdrs (updateOfflineProviders (maybeUpdateCache sm)) p = Some t"
  using assms
  by (simp add: updateOfflineProviders_eq maybeUpdateCache_frame)

lemma FindStorage_clockReads:
  "clockReads (snd (FindStorage kMinBlobSize sm nblobs blobSize)) =
     Suc (clockReads (maybeUpdateCache sm))"
  by (simp add: FindStorage_def findStorage_frame updateOfflineProviders_eq)

text \<open>
  Claim C6. If provider \<open>p\<close> is marked offline until \<open>t\<close> and no reading of the clock
  taken during a \<open>FindStorage\<close> call is later than \<open>t\<close>, then no blob of the result
  has \<open>ProviderId\<close> \<open>p\<close>, and the mark is still there after the call.
  \<open>MarkProvidersOffline\<close> sets the release time of each listed provider to the later
  of the existing release time and the new one, and leaves the other providers alone.
\<close>

theorem offline_honoring:
  "(offlinePvdrs sm p = Some t
      \<and> FindStorage kMinBlobSize sm nblobs blobSize = (res, sm')
      \<and> (\<forall>k. clockReads sm \<le> k \<and> k < clockReads sm' \<longrightarrow> clock sm k \<le> t)
    \<longrightarrow> (\<forall>blobs. res = Inr blobs \<longrightarrow> (\<forall>b\<in>set blobs. ProviderId b \<noteq> p))
        \<and> offlinePvdrs sm' p = Some t)
   \<and> (p \<in> set pvdrIds \<longrightarrow>
        offlinePvdrs (MarkProvidersOffline sm pvdrIds until) p =
          Some (case offlinePvdrs sm p of None \<Rightarrow> until | Some t0 \<Rightarrow> max t0 until))
   \<and> (p \<notin> set pvdrIds \<longrightarrow>
        offlinePvdrs (MarkProvidersOffline sm pvdrIds until) p = offlinePvdrs sm p)"
proof (intro conjI impI)
  assume a: "offlinePvdrs sm p = Some t
      \<and> FindStorage kMinBlobSize sm nblobs blobSize = (res, sm')
      \<and> (\<forall>k. clockReads sm \<le> k \<and> k < clockReads sm' \<longrightarrow> clock sm k \<le> t)"
  define sm2 where "sm2 = updateOfflineProviders (maybeUpdateCache sm)"
  from a have find: "findStorage kMinBlobSize sm2 nblobs blobSize = (res, sm')"
    by (simp add: FindStorage_def sm2_def)
  have "clockReads sm' = Suc (clockReads (maybeUpdateCache sm))"
    using FindStorage_clockReads [of kMinBlobSize sm nblobs blobSize] a by simp
  with a maybeUpdateCache_frame(5) [of sm]
  have "clock sm (clockReads (maybeUpdateCache sm)) \<le> t"
    by simp
  with a have off2: "offlinePvdrs sm2 p = Some t"
    unfolding sm2_def by (intro offline_kept) simp_all
  show "offlinePvdrs sm' p = Some t"
    using findStorage_frame(1) [of kMinBlobSize sm2 nblobs blobSize] find off2 by simp
  show "\<forall>blobs. res = Inr blobs \<longrightarrow> (\<forall>b\<in>set blobs. ProviderId b \<noteq> p)"
  proof (intro allI impI ballI)
    fix blobs b
    assume res: "res = Inr blobs" and b: "b \<in> set blobs"
    from find res have "findStorage kMinBlobSize sm2 nblobs blobSize = (Inr blobs, sm')"
      by simp
    then obtain candidates sm3 fl' where
      fc: "findCandidates sm2 blobSize = (candidates, sm3)" and
      loop: "findStorage_loop nblobs blobSize 0 [] candidates (freelist sm3) = Some (blobs, fl')"
      by (auto simp: findStorage_def split: prod.splits option.splits if_splits)
    have fl: "freelist sm3 = freelist sm2"
      using findCandidates_freelist [of sm2 blobSize] fc by simp
    from findStorage_loop_drawn [OF loop b] obtain c where
      c: "c \<in> set candidates" and pid: "ProviderId b = ProviderId (freelist sm2 ! c)"
      by (auto simp: fl)
    from c fc have "offlinePvdrs sm2 (ProviderId (freelist sm2 ! c)) = None"
      using findCandidates_valid(3) [of c sm2 blobSize] by simp
    with off2 pid show "ProviderId b \<noteq> p"
      by auto
  qed
next
  assume "p \<in> set pvdrIds"
  then show "offlinePvdrs (MarkProvidersOffline sm pvdrIds until) p =
          Some (case offlinePvdrs sm p of None \<Rightarrow> until | Some t0 \<Rightarrow> max t0 until)"
    by (simp add: MarkProvidersOffline_def markOffline_member)
next
  assume "p \<notin> set pvdrIds"
  then show "offlinePvdrs (MarkProvidersOffline sm pvdrIds until) p = offlinePvdrs sm p"
    by (simp add: MarkProvidersOffline_def markOffline_other)
qed

text \<open>
  A manager with two providers, the first marked offline until 100, at clock time 50.
\<close>

theorem offline_example:
  "offlinePvdrs offline_manager ''provider-a'' = Some 100
   \<and> fst (FindStorage 0 offline_manager 2 3) = Inr [example_blob ''b'' 3, example_blob ''b'' 3]
   \<and> ProviderId (example_blob ''b'' 3) \<noteq> ''provider-a''
   \<and> offlinePvdrs (snd (FindStorage 0 offline_manager 2 3)) ''provider-a'' = Some 100
   \<and> offlinePvdrs (MarkProvidersOffline offline_manager [''provider-a'', ''provider-b''] 70)
        ''provider-a'' = Some 100
   \<and> offlinePvdrs (MarkProvidersOffline offline_manager [''provider-a'', ''provider-b''] 70)
        ''provider-b'' = Some 70
   \<and> offlinePvdrs (MarkProvidersOffline offline_manager [''provider-a''] 70)
        ''provider-b'' = None"
proof -
  have marked: "offlinePvdrs offline_manager ''provider-a'' = Some 100"
    by (simp add: offline_manager_def)
  have found: "fst (FindStorage 0 offline_manager 2 3) =
      Inr [example_blob ''b'' 3, example_blob ''b'' 3]"
    by code_simp
  have early: "\<forall>k. clockReads offline_manager \<le> k
      \<and> k < clockReads (snd (FindStorage 0 offline_manager 2 3)) \<longrightarrow>
      clock offline_manager k \<le> 100"
  proof -
    have "clockReads (snd (FindStorage 0 offline_manager 2 3)) = 2"
      by code_simp
    then show ?thesis
      by (auto simp: offline_manager_def example_manager_def)
  qed
  have nb: "offlinePvdrs offline_manager ''provider-b'' = None"
    by (simp add: offline_manager_def)
  note a = offline_honoring [where sm = offline_manager and p = "''provider-a''" and t = 100
      and kMinBlobSize = 0 and nblobs = 2 and blobSize = 3
      and res = "fst (FindStorage 0 offline_manager 2 3)"
      and sm' = "snd (FindStorage 0 offline_manager 2 3)"
      and pvdrIds = "[''provider-a'', ''provider-b'']" and until = 70]
  note b = offline_honoring [where sm = offline_manager and p = "''provider-b''" and t = 100
      and kMinBlobSize = 0 and nblobs = 2 and blobSize = 3
      and res = "fst (FindStorage 0 offline_manager 2 3)"
      and sm' = "snd (FindStorage 0 offline_manager 2 3)"
      and pvdrIds = "[''provider-a'', ''provider-b'']" and until = 70]
  note c = offline_honoring [where sm = offline_manager and p = "''provider-b''" and t = 100
      and kMinBlobSize = 0 and nblobs = 2 and blobSize = 3
      and res = "fst (FindStorage 0 offline_manager 2 3)"
      and sm' = "snd (FindStorage 0 offline_manager 2 3)"
      and pvdrIds = "[''provider-a'']" and until = 70]
  have pair: "FindStorage 0 offline_manager 2 3 =
      (fst (FindStorage 0 offline_manager 2 3), snd (FindStorage 0 offline_manager 2 3))"
    by simp
  from a [THEN conjunct1] marked pair early
  have kept: "(\<forall>blobs. fst (FindStorage 0 offline_manager 2 3) = Inr blobs \<longrightarrow>
                (\<forall>b\<in>set blobs. ProviderId b \<noteq> ''provider-a''))
      \<and> offlinePvdrs (snd (FindStorage 0 offline_manager 2 3)) ''provider-a'' = Some 100"
    by blast
  with found have "\<forall>b\<in>set [example_blob ''b'' 3, example_blob ''b'' 3].
      ProviderId b \<noteq> ''provider-a''"
    by blast
  then have other: "ProviderId (example_blob ''b'' 3) \<noteq> ''provider-a''"
    by simp
  have "offlinePvdrs (MarkProvidersOffline offline_manager [''provider-a'', ''provider-b''] 70)
        ''provider-a'' = Some 100"
    using a [THEN conjunct2, THEN conjunct1] marked by simp
  moreover have "offlinePvdrs (MarkProvidersOffline offline_manager [''provider-a'', ''provider-b''] 70)
        ''provider-b'' = Some 70"
    using b [THEN conjunct2, THEN conjunct1] nb by simp
  moreover have "offlinePvdrs (MarkProvidersOffline offline_manager [''provider-a''] 70)
        ''provider-b'' = None"
    using c [THEN conjunct2, THEN conjunct2] nb by simp
  ultimately show ?thesis
    using marked found other kept by blast
qed

subsection \<open>A refresh that fails\<close>

lemma Sub_mono: "a \<le> b \<Longrightarrow> Sub a u \<le> Sub b u"
  by (simp add: Sub_def Let_def maxDuration_def minDuration_def)

lemma maybeUpdateCache_empty:
  "freelist sm = [] \<Longrightarrow> maybeUpdateCache sm = updateCache sm"
  by (simp add: maybeUpdateCache_def)

lemma maybeUpdateCache_nonempty:
  "freelist sm \<noteq> [] \<Longrightarrow>
   maybeUpdateCache sm =
     (if Sub (clock sm (clockReads sm)) (lastCacheUpdate sm) > updateFreq sm
      then updateCache (sm\<lparr>clockReads := Suc (clockReads sm)\<rparr>)
      else sm\<lparr>clockReads := Suc (clockReads sm)\<rparr>)"
  by (simp add: maybeUpdateCache_def Now_def)

lemma maybeUpdateCache_failed:
  assumes "updateFn sm (updateCalls sm) = Inl err"
  shows "freelist (maybeUpdateCache sm) = freelist sm"
    and "lastCacheUpdate (maybeUpdateCache sm) = lastCacheUpdate sm"
    and "clockReads (maybeUpdateCache sm) \<le> Suc (clockReads sm)"
  using assms
  by (cases "freelist sm = []";
      simp add: maybeUpdateCache_empty maybeUpdateCache_nonempty updateCache_failed)+

lemma findStorage_empty:
  "freelist sm = [] \<Longrightarrow> freelist (snd (findStorage kMinBlobSize sm nblobs blobSize)) = []"
  by (simp add: findStorage_def findCandidates_def findStorage_loop.simps [of _ _ _ _ "[]"])

lemma FindStorage_frame:
  "updateCalls (snd (FindStorage kMinBlobSize sm nblobs blobSize)) = updateCalls (maybeUpdateCache sm)"
  "lastCacheUpdate (snd (FindStorage kMinBlobSize sm nblobs blobSize)) = lastCacheUpdate (maybeUpdateCache sm)"
  "updateFreq (snd (FindStorage kMinBlobSize sm nblobs blobSize)) = updateFreq sm"
  "clock (snd (FindStorage kMinBlobSize sm nblobs blobSize)) = clock sm"
  by (simp_all add: FindStorage_def findStorage_frame updateOfflineProviders_eq maybeUpdateCache_frame)

text \<open>
  Claim C10. When \<open>updateFn\<close> returns an error, \<open>updateCache\<close> leaves the freelist
  and the time of the last refresh as they are. \<open>AvailableStorage\<close> then returns the
  total of the stale freelist, and \<open>FindStorage\<close> selects from the stale freelist. The
  next call attempts the refresh again (\<open>updateCalls\<close> counts the calls of
  \<open>updateFn\<close>): \<open>AvailableStorage\<close> always does, and \<open>FindStorage\<close> does when
  its own attempt has just failed and the clock does not run backwards.
\<close>

theorem failed_refresh_keeps_cache:
  assumes "updateFn sm (updateCalls sm) = Inl err"
  shows "freelist (updateCache sm) = freelist sm
       \<and> lastCacheUpdate (updateCache sm) = lastCacheUpdate sm
       \<and> updateCalls (updateCache sm) = Suc (updateCalls sm)
       \<and> AvailableStorage sm =
           (totalAmount (freelist sm), sm\<lparr>updateCalls := Suc (updateCalls sm)\<rparr>)
       \<and> updateCalls (snd (AvailableStorage (snd (AvailableStorage sm)))) = updateCalls sm + 2
       \<and> freelist (updateOfflineProviders (maybeUpdateCache sm)) = freelist sm
       \<and> lastCacheUpdate (updateOfflineProviders (maybeUpdateCache sm)) = lastCacheUpdate sm
       \<and> ((\<forall>j k. j \<le> k \<longrightarrow> clock sm j \<le> clock sm k)
            \<and> updateCalls (snd (FindStorage kMinBlobSize sm nblobs blobSize)) = Suc (updateCalls sm)
          \<longrightarrow> updateCalls (snd (FindStorage kMinBlobSize
                  (snd (FindStorage kMinBlobSize sm nblobs blobSize)) nblobs' blobSize')) =
                updateCalls sm + 2)"
proof (intro conjI impI)
  have uc: "updateCache sm = sm\<lparr>updateCalls := Suc (updateCalls sm)\<rparr>"
    by (rule updateCache_failed [OF assms])
  show "freelist (updateCache sm) = freelist sm"
    and "lastCacheUpdate (updateCache sm) = lastCacheUpdate sm"
    and "updateCalls (updateCache sm) = Suc (updateCalls sm)"
    by (simp_all add: uc)
  show "AvailableStorage sm =
          (totalAmount (freelist sm), sm\<lparr>updateCalls := Suc (updateCalls sm)\<rparr>)"
    by (simp add: AvailableStorage_def uc)
  show "updateCalls (snd (AvailableStorage (snd (AvailableStorage sm)))) = updateCalls sm + 2"
    by (simp add: AvailableStorage_def Let_def updateCache_frame)
  show "freelist (updateOfflineProviders (maybeUpdateCache sm)) = freelist sm"
    and "lastCacheUpdate (updateOfflineProviders (maybeUpdateCache sm)) = lastCacheUpdate sm"
    by (simp_all add: updateOfflineProviders_eq maybeUpdateCache_failed [OF assms])
next
  assume a: "(\<forall>j k. j \<le> k \<longrightarrow> clock sm j \<le> clock sm k)
       \<and> updateCalls (snd (FindStorage kMinBlobSize sm nblobs blobSize)) = Suc (updateCalls sm)"
  define sm' where "sm' = snd (FindStorage kMinBlobSize sm nblobs blobSize)"
  have calls: "updateCalls sm' = Suc (updateCalls sm)"
    using a by (simp add: sm'_def)
  have attempted: "updateCalls (maybeUpdateCache sm) = Suc (updateCalls sm)"
    using a by (simp add: FindStorage_frame)
  have last: "lastCacheUpdate sm' = lastCacheUpdate sm"
    by (simp add: sm'_def FindStorage_frame maybeUpdateCache_failed [OF assms])
  have freq: "updateFreq sm' = updateFreq sm" and clk: "clock sm' = clock sm"
    by (simp_all add: sm'_def FindStorage_frame)
  have reads: "clockReads sm \<le> clockReads sm'"
    using FindStorage_clockReads [of kMinBlobSize sm nblobs blobSize]
      maybeUpdateCache_frame(5) [of sm]
    by (simp add: sm'_def)
  have "updateCalls (maybeUpdateCache sm') = Suc (updateCalls sm')"
  proof (cases "freelist sm' = []")
    case True
    then show ?thesis
      by (simp add: maybeUpdateCache_empty updateCache_frame)
  next
    case False
    have ne: "freelist sm \<noteq> []"
    proof
      assume e: "freelist sm = []"
      then have "freelist (updateOfflineProviders (maybeUpdateCache sm)) = []"
        by (simp add: updateOfflineProviders_eq maybeUpdateCache_failed [OF assms])
      then have "freelist sm' = []"
        unfolding sm'_def FindStorage_def by (rule findStorage_empty)
      with False show False by simp
    qed
    have due: "Sub (clock sm (clockReads sm)) (lastCacheUpdate sm) > updateFreq sm"
    proof (rule ccontr)
      assume "\<not> ?thesis"
      then have "maybeUpdateCache sm = sm\<lparr>clockReads := Suc (clockReads sm)\<rparr>"
        using ne by (simp add: maybeUpdateCache_nonempty)
      with attempted show False by simp
    qed
    have "clock sm (clockReads sm) \<le> clock sm (clockReads sm')"
      using a reads by simp
    from Sub_mono [OF this, of "lastCacheUpdate sm"] due
    have "Sub (clock sm' (clockReads sm')) (lastCacheUpdate sm') > updateFreq sm'"
      by (simp add: last freq clk)
    then show ?thesis
      using False by (simp add: maybeUpdateCache_nonempty updateCache_frame)
  qed
  then show "updateCalls (snd (FindStorage kMinBlobSize
                  (snd (FindStorage kMinBlobSize sm nblobs blobSize)) nblobs' blobSize')) =
                updateCalls sm + 2"
    using calls by (simp add: FindStorage_frame sm'_def)
qed

text \<open>
  A manager whose cache is older than its refresh interval and whose metaserver cannot
  be reached.
\<close>

theorem failed_refresh_example:
  "updateFn stale_manager (updateCalls stale_manager) = Inl ''metaserver unreachable''
   \<and> freelist (updateCache stale_manager) = freelist stale_manager
   \<and> lastCacheUpdate (updateCache stale_manager) = lastCacheUpdate stale_manager
   \<and> fst (AvailableStorage stale_manager) = 200
   \<and> updateCalls (snd (AvailableStorage (snd (AvailableStorage stale_manager)))) = 2
   \<and> freelist (updateOfflineProviders (maybeUpdateCache stale_manager)) = freelist stale_manager
   \<and> updateCalls (snd (FindStorage 0 stale_manager 1 100)) = 1
   \<and> updateCalls (snd (FindStorage 0 (snd (FindStorage 0 stale_manager 1 100)) 1 100)) = 2"
proof -
  have err: "updateFn stale_manager (updateCalls stale_manager) = Inl ''metaserver unreachable''"
    by (simp add: stale_manager_def example_manager_def)
  have mono: "\<forall>j k. j \<le> k \<longrightarrow> clock stale_manager j \<le> clock stale_manager k"
    by (simp add: stale_manager_def example_manager_def)
  have attempted: "updateCalls (snd (FindStorage 0 stale_manager 1 100)) = 1"
    by code_simp
  have calls: "updateCalls stale_manager = 0"
    by (simp add: stale_manager_def example_manager_def)
  have total: "totalAmount (freelist stale_manager) = 200"
    by code_simp
  note th = failed_refresh_keeps_cache [OF err, of 0 1 100 1 100]
  have c1: "freelist (updateCache stale_manager) = freelist stale_manager"
    and c2: "lastCacheUpdate (updateCache stale_manager) = lastCacheUpdate stale_manager"
    and c6: "freelist (updateOfflineProviders (maybeUpdateCache stale_manager)) =
             freelist stale_manager"
    using th by blast+
  have c4: "fst (AvailableStorage stale_manager) = 200"
    using th total by simp
  have c5: "updateCalls (snd (AvailableStorage (snd (AvailableStorage stale_manager)))) = 2"
    using th [THEN conjunct2, THEN conjunct2, THEN conjunct2, THEN conjunct2, THEN conjunct1]
      calls by simp
  have "updateCalls (snd (FindStorage 0 stale_manager 1 100)) = Suc (updateCalls stale_manager)"
    using attempted calls by simp
  with th mono
  have "updateCalls (snd (FindStorage 0 (snd (FindStorage 0 stale_manager 1 100)) 1 100)) =
        updateCalls stale_manager + 2"
    by blast
  then have c8: "updateCalls (snd (FindStorage 0 (snd (FindStorage 0 stale_manager 1 100)) 1 100)) = 2"
    using calls by simp
  show ?thesis
    using err c1 c2 c4 c5 c6 attempted c8 by blast
qed

section \<open>Properties of the download pipeline\<close>

subsection \<open>The fetch loop\<close>

declare download_loop.simps [simp del]

lemma fetched_Suc:
  "fetched lib io file version (Suc j) =
     fetched lib io file version j + (if \<not> isl (fetch_result lib io file version j) then 1 else 0)"
  by (simp add: fetched_def)

lemma fetched_le: "fetched lib io file version j \<le> j"
  unfolding fetched_def using length_filter_le [of _ "[0..<j]"] by simp

lemma download_loop_run:
  assumes temp: "\<forall>i. tempFile (io i) = None"
    and n: "n \<le> length (Blocks version)" "\<not> budget_left lib io file version n"
  shows "i \<le> n \<Longrightarrow> \<forall>j. i \<le> j \<and> j < n \<longrightarrow> budget_left lib io file version j \<Longrightarrow>
     successes st = int (fetched lib io file version i) \<Longrightarrow>
     failures st = int i - int (fetched lib io file version i) \<Longrightarrow>
     download_loop lib io file version i st =
       (None, \<lparr>successes = int (fetched lib io file version n),
               failures = int n - int (fetched lib io file version n),
               blockFiles = blockFiles st @ map (block_file lib io file version) [i..<n],
               blockInfos = blockInfos st @ map (block_info lib io file version) [i..<n],
               effects = effects st @ map (block_request file version) [i..<n]\<rparr>)"
proof (induction "n - i" arbitrary: i st)
  case 0
  then have "i = n" by simp
  with n(2) "0.prems" have "\<not> (successes st < NumDataBlocks version
      \<and> failures st \<le> NumParityBlocks version)"
    by (simp add: budget_left_def)
  then show ?case
    using \<open>i = n\<close> "0.prems"
    by (subst download_loop.simps) auto
next
  case (Suc d)
  then have i: "i < n" by simp
  with Suc.prems have "budget_left lib io file version i" by simp
  with Suc.prems have cond: "successes st < NumDataBlocks version
      \<and> failures st \<le> NumParityBlocks version"
    by (simp add: budget_left_def)
  have inrange: "\<not> length (Blocks version) \<le> i"
    using i n(1) by simp
  have upt: "[i..<n] = i # [Suc i..<n]"
    using i by (simp add: upt_conv_Cons)
  show ?case
  proof (cases "fetch_result lib io file version i")
    case (Inr temp)
    define st' where "st' = st\<lparr>effects := effects st @ [block_request file version i],
        successes := successes st + 1, blockFiles := blockFiles st @ [Some temp],
        blockInfos := blockInfos st @ [block_info lib io file version i]\<rparr>"
    have step: "download_loop lib io file version i st =
                download_loop lib io file version (Suc i) st'"
      using cond temp inrange Inr
      by (subst download_loop.simps)
         (simp add: Let_def fetch_result_def st'_def block_request_def block_info_def)
    have "download_loop lib io file version (Suc i) st' =
       (None, \<lparr>successes = int (fetched lib io file version n),
               failures = int n - int (fetched lib io file version n),
               blockFiles = blockFiles st' @ map (block_file lib io file version) [Suc i..<n],
               blockInfos = blockInfos st' @ map (block_info lib io file version) [Suc i..<n],
               effects = effects st' @ map (block_request file version) [Suc i..<n]\<rparr>)"
    proof (rule Suc.hyps(1))
      show "d = n - Suc i" using Suc.hyps(2) by simp
      show "Suc i \<le> n" using i by simp
      show "\<forall>j. Suc i \<le> j \<and> j < n \<longrightarrow> budget_left lib io file version j"
        using Suc.prems(2) by simp
      show "successes st' = int (fetched lib io file version (Suc i))"
        using Suc.prems(3) Inr by (simp add: st'_def fetched_Suc)
      show "failures st' = int (Suc i) - int (fetched lib io file version (Suc i))"
        using Suc.prems(4) Inr by (simp add: st'_def fetched_Suc)
    qed
    then show ?thesis
      using Inr by (simp add: step upt st'_def block_file_def)
  next
    case (Inl err)
    define st' where "st' = st\<lparr>effects := effects st @ [block_request file version i],
        failures := failures st + 1, blockFiles := blockFiles st @ [None],
        blockInfos := blockInfos st @ [block_info lib io file version i]\<rparr>"
    have step: "download_loop lib io file version i st =
                download_loop lib io file version (Suc i) st'"
      using cond temp inrange Inl
      by (subst download_loop.simps)
         (simp add: Let_def fetch_result_def st'_def block_request_def block_info_def)
    have "download_loop lib io file version (Suc i) st' =
       (None, \<lparr>successes = int (fetched lib io file version n),
               failures = int n - int (fetched lib io file version n),
               blockFiles = blockFiles st' @ map (block_file lib io file version) [Suc i..<n],
               blockInfos = blockInfos st' @ map (block_info lib io file version) [Suc i..<n],
               effects = effects st' @ map (block_request file version) [Suc i..<n]\<rparr>)"
    proof (rule Suc.hyps(1))
      show "d = n - Suc i" using Suc.hyps(2) by simp
      show "Suc i \<le> n" using i by simp
      show "\<forall>j. Suc i \<le> j \<and> j < n \<longrightarrow> budget_left lib io file version j"
        using Suc.prems(2) by simp
      show "successes st' = int (fetched lib io file version (Suc i))"
        using Suc.prems(3) Inl by (simp add: st'_def fetched_Suc)
      show "failures st' = int (Suc i) - int (fetched lib io file version (Suc i))"
        using Suc.prems(4) Inl by (simp add: st'_def fetched_Suc)
    qed
    then show ?thesis
      using Inl by (simp add: step upt st'_def block_file_def)
  qed
qed

lemma budget_ends:
  assumes "int (length (Blocks version)) = NumDataBlocks version + NumParityBlocks version"
  shows "\<not> budget_left lib io file version (length (Blocks version))"
  using assms fetched_le [of lib io "file" version "length (Blocks version)"]
  by (auto simp: budget_left_def)

lemma budget_stop_exists:
  assumes "int (length (Blocks version)) = NumDataBlocks version + NumParityBlocks version"
  obtains n where "n \<le> length (Blocks version)"
    and "\<not> budget_left lib io file version n"
    and "\<forall>j<n. budget_left lib io file version j"
proof -
  define n where "n = (LEAST j. \<not> budget_left lib io file version j)"
  have stop: "\<not> budget_left lib io file version (length (Blocks version))"
    by (rule budget_ends [OF assms])
  have "\<not> budget_left lib io file version n"
    unfolding n_def by (rule LeastI [of "\<lambda>j. \<not> budget_left lib io file version j", OF stop])
  moreover have "n \<le> length (Blocks version)"
    unfolding n_def by (rule Least_le [of "\<lambda>j. \<not> budget_left lib io file version j", OF stop])
  moreover have "\<forall>j<n. budget_left lib io file version j"
    unfolding n_def using not_less_Least [of _ "\<lambda>j. \<not> budget_left lib io file version j"]
    by blast
  ultimately show ?thesis
    using that by blast
qed

text \<open>
  Claim C1. Let the version have \<open>k = NumDataBlocks\<close>, \<open>m = NumParityBlocks\<close> and
  exactly \<open>k + m\<close> blocks, and let the temp file of every fetch be created. Then the
  loop of \<open>performFileDownload\<close> ends without a panic after some \<open>n\<close> fetches, where
  \<open>n\<close> is the first index at which the budget is used up (\<open>k\<close> successful fetches,
  or more than \<open>m\<close> failed ones): it requests the blocks \<open>0, \<dots>, n - 1\<close> in stored
  order and no other, it records the outcome of each fetch in that block's info (the
  error of a failed fetch included) and goes on, and the download fails with
  \<open>InsufficientShards\<close> exactly when fewer than \<open>k\<close> of the \<open>n\<close> fetches
  succeeded.
\<close>

theorem download_budget:
  assumes "int (length (Blocks version)) = NumDataBlocks version + NumParityBlocks version"
    and "\<forall>i. tempFile (blockIO env f i) = None"
  shows "\<exists>n. n \<le> length (Blocks version)
           \<and> (\<forall>j<n. budget_left lib (blockIO env f) file version j)
           \<and> \<not> budget_left lib (blockIO env f) file version n
           \<and> download_loop lib (blockIO env f) file version 0 initial_state =
               (None, \<lparr>successes = int (fetched lib (blockIO env f) file version n),
                       failures = int n - int (fetched lib (blockIO env f) file version n),
                       blockFiles = map (block_file lib (blockIO env f) file version) [0..<n],
                       blockInfos = map (block_info lib (blockIO env f) file version) [0..<n],
                       effects = map (block_request file version) [0..<n]\<rparr>)
           \<and> fst (performFileDownload lib env f file version destPath) =
               map (block_request file version) [0..<n]
           \<and> (snd (performFileDownload lib env f file version destPath) = Inl InsufficientShards
                \<longleftrightarrow> int (fetched lib (blockIO env f) file version n) < NumDataBlocks version)
           \<and> (\<forall>infos. snd (performFileDownload lib env f file version destPath) = Inr infos
                \<longrightarrow> infos = map (block_info lib (blockIO env f) file version) [0..<n])"
proof -
  obtain n where n: "n \<le> length (Blocks version)"
    "\<not> budget_left lib (blockIO env f) file version n"
    "\<forall>j<n. budget_left lib (blockIO env f) file version j"
    using budget_stop_exists [OF assms(1)] by blast
  have run: "download_loop lib (blockIO env f) file version 0 initial_state =
               (None, \<lparr>successes = int (fetched lib (blockIO env f) file version n),
                       failures = int n - int (fetched lib (blockIO env f) file version n),
                       blockFiles = map (block_file lib (blockIO env f) file version) [0..<n],
                       blockInfos = map (block_info lib (blockIO env f) file version) [0..<n],
                       effects = map (block_request file version) [0..<n]\<rparr>)"
    using download_loop_run [OF assms(2) n(1,2), of 0 initial_state] n(3)
    by (simp add: initial_state_def fetched_def)
  have "fst (performFileDownload lib env f file version destPath) =
          map (block_request file version) [0..<n]"
    by (simp add: performFileDownload_def run split: option.splits)
  moreover have "snd (performFileDownload lib env f file version destPath) = Inl InsufficientShards
      \<longleftrightarrow> int (fetched lib (blockIO env f) file version n) < NumDataBlocks version"
    by (simp add: performFileDownload_def run split: option.splits)
  moreover have "\<forall>infos. snd (performFileDownload lib env f file version destPath) = Inr infos
      \<longrightarrow> infos = map (block_info lib (blockIO env f) file version) [0..<n]"
    by (simp add: performFileDownload_def run split: option.splits)
  ultimately show ?thesis
    using n run by blast
qed

text \<open>
  Two data blocks and one parity block; the first provider cannot be reached.
\<close>

theorem download_budget_example:
  "int (length (Blocks example_version)) =
     NumDataBlocks example_version + NumParityBlocks example_version
   \<and> (\<forall>i. tempFile (blockIO example_environment 0 i) = None)
   \<and> fst (performFileDownload example_library example_environment 0 example_file
          example_version ''out'') =
       [BlockRequest ''a:8003'' ''alice'' ''block-a'',
        BlockRequest ''b:8003'' ''alice'' ''block-b'',
        BlockRequest ''c:8003'' ''alice'' ''block-c'']
   \<and> fetched example_library (blockIO example_environment 0) example_file example_version 3 = 2
   \<and> snd (performFileDownload example_library example_environment 0 example_file
          example_version ''out'') \<noteq> Inl InsufficientShards
   \<and> (\<exists>n. n \<le> length (Blocks example_version)
          \<and> \<not> budget_left example_library (blockIO example_environment 0) example_file
                example_version n
          \<and> fst (performFileDownload example_library example_environment 0 example_file
                 example_version ''out'') =
              map (block_request example_file example_version) [0..<n]
          \<and> (snd (performFileDownload example_library example_environment 0 example_file
                  example_version ''out'') = Inl InsufficientShards
               \<longleftrightarrow> int (fetched example_library (blockIO example_environment 0) example_file
                          example_version n) < NumDataBlocks example_version))"
proof -
  have len: "int (length (Blocks example_version)) =
      NumDataBlocks example_version + NumParityBlocks example_version"
    by (simp add: example_version_def)
  have temp: "\<forall>i. tempFile (blockIO example_environment 0 i) = None"
    by (simp add: example_environment_def unreachable_def delivers_def)
  have reqs: "fst (performFileDownload example_library example_environment 0 example_file
          example_version ''out'') =
       [BlockRequest ''a:8003'' ''alice'' ''block-a'',
        BlockRequest ''b:8003'' ''alice'' ''block-b'',
        BlockRequest ''c:8003'' ''alice'' ''block-c'']"
    by code_simp
  have two: "fetched example_library (blockIO example_environment 0) example_file
      example_version 3 = 2"
    by code_simp
  have ok: "snd (performFileDownload example_library example_environment 0 example_file
          example_version ''out'') \<noteq> Inl InsufficientShards"
    by code_simp
  from download_budget [OF len temp, of example_library example_file "''out''"]
  have "\<exists>n. n \<le> length (Blocks example_version)
          \<and> \<not> budget_left example_library (blockIO example_environment 0) example_file
                example_version n
          \<and> fst (performFileDownload example_library example_environment 0 example_file
                 example_version ''out'') =
              map (block_request example_file example_version) [0..<n]
          \<and> (snd (performFileDownload example_library example_environment 0 example_file
                  example_version ''out'') = Inl InsufficientShards
               \<longleftrightarrow> int (fetched example_library (blockIO example_environment 0) example_file
                          example_version n) < NumDataBlocks example_version)"
    by blast
  with len temp reqs two ok show ?thesis
    by blast
qed

subsection \<open>Size and hash of a block\<close>

text \<open>
  Claim C2. Let the transport succeed: the provider answers and its bytes are copied
  into the temp file. Then the fetch succeeds only if the number of delivered bytes is
  \<open>Block.Size\<close> and the base64url encoding of their SHA-256 is \<open>Block.Sha256Hash\<close>;
  it is rejected for its size exactly when the size differs; and when the temp file can
  be rewound and read again, it is rejected as corrupt exactly when the size or the hash
  differs, and it succeeds when both match. A delivered stream that differs from the
  stream whose hash is recorded is rejected, unless the two have the same encoded hash
  (a collision of SHA-256).
\<close>

theorem hash_gating:
  assumes "getBlock bio = Inr delivered" and "copyErr bio = None"
  shows "((\<exists>temp. downloadBlock lib bio renterId block = Inr temp) \<longrightarrow>
            int (length delivered) = Size block
            \<and> EncodeToString lib (sha256 lib delivered) = Sha256Hash block)
       \<and> (downloadBlock lib bio renterId block = Inl CorruptSize
            \<longleftrightarrow> int (length delivered) \<noteq> Size block)
       \<and> (downloadBlock lib bio renterId block = Inl CorruptHash \<longrightarrow>
            EncodeToString lib (sha256 lib delivered) \<noteq> Sha256Hash block)
       \<and> (seekErr bio = None \<and> hashErr bio = None \<longrightarrow>
            ((downloadBlock lib bio renterId block = Inl CorruptSize
              \<or> downloadBlock lib bio renterId block = Inl CorruptHash)
             \<longleftrightarrow> (int (length delivered) \<noteq> Size block
                  \<or> EncodeToString lib (sha256 lib delivered) \<noteq> Sha256Hash block))
            \<and> (int (length delivered) = Size block
                \<and> EncodeToString lib (sha256 lib delivered) = Sha256Hash block
               \<longrightarrow> downloadBlock lib bio renterId block = Inr delivered))
       \<and> (Sha256Hash block = EncodeToString lib (sha256 lib original)
            \<and> delivered \<noteq> original
            \<and> (EncodeToString lib (sha256 lib delivered) = EncodeToString lib (sha256 lib original)
                \<longrightarrow> delivered = original)
           \<longrightarrow> (\<exists>err. downloadBlock lib bio renterId block = Inl err))"
  using assms
  by (auto simp: downloadBlock_def split: option.splits)

text \<open>
  A block of two bytes; a stream with one byte changed and a stream that is too long.
\<close>

theorem hash_gating_example:
  "getBlock (delivers [1, 1]) = Inr [1, 1]
   \<and> copyErr (delivers [1, 1]) = None
   \<and> seekErr (delivers [1, 1]) = None
   \<and> hashErr (delivers [1, 1]) = None
   \<and> Sha256Hash (example_block ''a'' [0, 1]) =
       EncodeToString example_library (sha256 example_library [0, 1])
   \<and> downloadBlock example_library (delivers [0, 1]) ''alice'' (example_block ''a'' [0, 1]) =
       Inr [0, 1]
   \<and> downloadBlock example_library (delivers [1, 1]) ''alice'' (example_block ''a'' [0, 1]) =
       Inl CorruptHash
   \<and> downloadBlock example_library (delivers [0, 1, 1]) ''alice'' (example_block ''a'' [0, 1]) =
       Inl CorruptSize"
proof -
  have io: "getBlock (delivers content) = Inr content" "copyErr (delivers content) = None"
    "seekErr (delivers content) = None" "hashErr (delivers content) = None" for content
    by (simp_all add: delivers_def)
  have size: "Size (example_block ''a'' [0, 1]) = 2"
    and hash: "Sha256Hash (example_block ''a'' [0, 1]) =
       EncodeToString example_library (sha256 example_library [0, 1])"
    by (simp_all add: example_block_def)
  have enc: "EncodeToString example_library (sha256 example_library [0, 1]) = ''AB''"
    "EncodeToString example_library (sha256 example_library [1, 1]) = ''BB''"
    by (simp_all add: example_library_def)
  note good = hash_gating [OF io(1) [of "[0, 1]"] io(2) [of "[0, 1]"],
      where lib = example_library and renterId = "''alice''"
        and block = "example_block ''a'' [0, 1]" and original = "[0, 1]"]
  note flipped = hash_gating [OF io(1) [of "[1, 1]"] io(2) [of "[1, 1]"],
      where lib = example_library and renterId = "''alice''"
        and block = "example_block ''a'' [0, 1]" and original = "[0, 1]"]
  note long = hash_gating [OF io(1) [of "[0, 1, 1]"] io(2) [of "[0, 1, 1]"],
      where lib = example_library and renterId = "''alice''"
        and block = "example_block ''a'' [0, 1]" and original = "[0, 1]"]
  have "downloadBlock example_library (delivers [0, 1]) ''alice'' (example_block ''a'' [0, 1]) =
       Inr [0, 1]"
    using good io(3,4) [of "[0, 1]"] size hash by simp
  moreover
  have "downloadBlock example_library (delivers [1, 1]) ''alice'' (example_block ''a'' [0, 1]) =
       Inl CorruptHash"
    using flipped io(3,4) [of "[1, 1]"] size hash enc by auto
  moreover
  have "downloadBlock example_library (delivers [0, 1, 1]) ''alice''
      (example_block ''a'' [0, 1]) = Inl CorruptSize"
    using long size by simp
  ultimately show ?thesis
    using io hash by simp
qed

subsection \<open>Key recovery\<close>

lemma select_permission:
  "foldl (\<lambda>(key, iv) permission.
             if RenterId permission = caller
             then (perm_AesKey permission, perm_AesIV permission) else (key, iv))
      acc perms =
   (case filter (\<lambda>p. RenterId p = caller) perms of
      [] \<Rightarrow> acc
    | p # ps \<Rightarrow> (perm_AesKey (last (p # ps)), perm_AesIV (last (p # ps))))"
proof (induction perms rule: rev_induct)
  case Nil
  then show ?case by simp
next
  case (snoc q perms)
  then show ?case
    by (cases "filter (\<lambda>p. RenterId p = caller) perms") (auto split: prod.splits)
qed

text \<open>
  Claim C3. Let the access list hold at most one entry for the caller (or let the caller
  be the owner). Then \<open>decryptEncryptionKeys\<close> follows the key-selection rule: it
  fails with \<open>NotPermitted\<close> when the rule selects nothing; otherwise it returns a key
  and an IV exactly when the selected wrapped key and IV are not empty, both decode as
  base64url and both decrypt under the caller's private key, and what it returns are the
  two plaintexts. An empty wrapped key or IV is treated as no permission.
\<close>

theorem key_selection:
  assumes "OwnerID f = Config_RenterId r
           \<or> length (filter (\<lambda>p. RenterId p = Config_RenterId r) (AccessList f)) \<le> 1"
  shows "(key_selection_rule (Config_RenterId r) f = None \<longrightarrow>
            decryptEncryptionKeys lib r f = Inl NotPermitted)
       \<and> (\<forall>key iv. key_selection_rule (Config_RenterId r) f = Some (key, iv) \<longrightarrow>
            (key = '''' \<or> iv = '''' \<longrightarrow> decryptEncryptionKeys lib r f = Inl NotPermitted)
            \<and> (\<forall>aesKey aesIV.
                  decryptEncryptionKeys lib r f = Inr (aesKey, aesIV) \<longleftrightarrow>
                    key \<noteq> '''' \<and> iv \<noteq> ''''
                    \<and> (\<exists>keyBytes ivBytes.
                          DecodeString lib key = Inr keyBytes
                          \<and> DecodeString lib iv = Inr ivBytes
                          \<and> DecryptOAEP lib (privKey r) keyBytes = Inr aesKey
                          \<and> DecryptOAEP lib (privKey r) ivBytes = Inr aesIV)))"
proof (cases "OwnerID f = Config_RenterId r")
  case True
  then show ?thesis
    by (auto simp: key_selection_rule_def decryptEncryptionKeys_def split: sum.splits)
next
  case False
  with assms have one: "length (filter (\<lambda>p. RenterId p = Config_RenterId r) (AccessList f)) \<le> 1"
    by simp
  show ?thesis
  proof (cases "filter (\<lambda>p. RenterId p = Config_RenterId r) (AccessList f)")
    case Nil
    then show ?thesis
      using False
      by (auto simp: key_selection_rule_def decryptEncryptionKeys_def select_permission)
  next
    case (Cons p ps)
    with one have ps: "ps = []" by simp
    show ?thesis
      using False Cons ps
      by (auto simp: key_selection_rule_def decryptEncryptionKeys_def select_permission
               split: sum.splits)
  qed
qed

text \<open>
  The owner, a renter on the access list and a stranger.
\<close>

theorem key_selection_example:
  "length (filter (\<lambda>p. RenterId p = ''bob'') (AccessList example_file)) = 1
   \<and> key_selection_rule ''alice'' example_file = Some (''AB'', ''BA'')
   \<and> key_selection_rule ''bob'' example_file = Some (''ABB'', ''BAA'')
   \<and> key_selection_rule ''carol'' example_file = None
   \<and> decryptEncryptionKeys example_library \<lparr>Config_RenterId = ''alice'', privKey = ()\<rparr>
        example_file = Inr ([1, 0], [0, 1])
   \<and> decryptEncryptionKeys example_library \<lparr>Config_RenterId = ''bob'', privKey = ()\<rparr>
        example_file = Inr ([1, 1, 0], [0, 0, 1])
   \<and> decryptEncryptionKeys example_library \<lparr>Config_RenterId = ''carol'', privKey = ()\<rparr>
        example_file = Inl NotPermitted"
proof -
  have one: "length (filter (\<lambda>p. RenterId p = ''bob'') (AccessList example_file)) = 1"
    by (simp add: example_file_def)
  have none: "length (filter (\<lambda>p. RenterId p = ''carol'') (AccessList example_file)) \<le> 1"
    by (simp add: example_file_def)
  have alice: "key_selection_rule ''alice'' example_file = Some (''AB'', ''BA'')"
    and bob: "key_selection_rule ''bob'' example_file = Some (''ABB'', ''BAA'')"
    and carol: "key_selection_rule ''carol'' example_file = None"
    by (simp_all add: key_selection_rule_def example_file_def)
  have dec: "DecodeString example_library ''AB'' = Inr [0, 1]"
    "DecodeString example_library ''BA'' = Inr [1, 0]"
    "DecodeString example_library ''ABB'' = Inr [0, 1, 1]"
    "DecodeString example_library ''BAA'' = Inr [1, 0, 0]"
    by (simp_all add: example_library_def)
  have rsa: "DecryptOAEP example_library () [0, 1] = Inr [1, 0]"
    "DecryptOAEP example_library () [1, 0] = Inr [0, 1]"
    "DecryptOAEP example_library () [0, 1, 1] = Inr [1, 1, 0]"
    "DecryptOAEP example_library () [1, 0, 0] = Inr [0, 0, 1]"
    by (simp_all add: example_library_def)
  have "decryptEncryptionKeys example_library \<lparr>Config_RenterId = ''alice'', privKey = ()\<rparr>
        example_file = Inr ([1, 0], [0, 1])"
    using key_selection [of example_file "\<lparr>Config_RenterId = ''alice'', privKey = ()\<rparr>"
        example_library] alice dec rsa
    by (simp add: example_file_def)
  moreover have "decryptEncryptionKeys example_library \<lparr>Config_RenterId = ''bob'', privKey = ()\<rparr>
        example_file = Inr ([1, 1, 0], [0, 0, 1])"
    using key_selection [of example_file "\<lparr>Config_RenterId = ''bob'', privKey = ()\<rparr>"
        example_library] one bob dec rsa
    by simp
  moreover have "decryptEncryptionKeys example_library
        \<lparr>Config_RenterId = ''carol'', privKey = ()\<rparr> example_file = Inl NotPermitted"
    using key_selection [of example_file "\<lparr>Config_RenterId = ''carol'', privKey = ()\<rparr>"
        example_library] none carol
    by simp
  ultimately show ?thesis
    using one alice bob carol by blast
qed

subsection \<open>Folders and versions\<close>

text \<open>
  Claim C9. For a file whose \<open>IsDir\<close> flag is set, \<open>Download\<close> with a version number
  fails with the error "Cannot give version option with folder download", and it has
  created no directory and requested no block.
\<close>

theorem folder_download_rejects_version:
  assumes "Renter_GetFile env fileId = Inr file" and "IsDir file" and "versionNum \<noteq> None"
  shows "Download lib env fileId destPath versionNum = ([], Inl VersionWithFolder)"
  using assms by (simp add: Download_def)

text \<open>
  The same folder with and without a version number.
\<close>

theorem folder_download_example:
  "Renter_GetFile example_environment ''dir-1'' = Inr example_folder
   \<and> IsDir example_folder
   \<and> Download example_library example_environment ''dir-1'' ''/tmp/docs'' (Some 1) =
       ([], Inl VersionWithFolder)"
proof -
  have get: "Renter_GetFile example_environment ''dir-1'' = Inr example_folder"
    by (simp add: example_environment_def)
  have dir: "IsDir example_folder"
    by (simp add: example_folder_def)
  have "Some (1 :: int) \<noteq> None"
    by simp
  from folder_download_rejects_version [OF get dir this, of example_library "''/tmp/docs''"]
  show ?thesis
    using get dir by blast
qed

lemma folder_download_without_version:
  "fst (Download example_library example_environment ''dir-1'' ''/tmp/docs'' None) =
     [DirCreate ''/tmp/docs'',
      BlockRequest ''a:8003'' ''alice'' ''block-a'',
      BlockRequest ''b:8003'' ''alice'' ''block-b'',
      BlockRequest ''c:8003'' ''alice'' ''block-c'']"
  by code_simp

section \<open>Properties of the metadata client\<close>

lemma call_classes:
  assumes "call u c op = Inr req"
  shows "mutating op \<longleftrightarrow> Method req = ''POST'' \<or> Method req = ''PUT'' \<or> Method req = ''DELETE''"
    and "renterRead op \<longleftrightarrow>
           Method req = ''GET'' \<and> prefix (''http://'' @ addr c @ ''/renters/'') (URL req)"
  using assms
  by (cases op;
      auto simp: authorized_def NewRequest_def Post_def Get_def
           split: if_splits option.splits sum.splits)+

text \<open>
  Claim C8, as stated, fails for the two registrations: \<open>RegisterRenter\<close> creates a
  record, and with no token held it sends its request, without an \<open>Authorization\<close>
  header.
\<close>

theorem registration_needs_no_token:
  "mutating (RegisterRenter (Inr ''{}''))
   \<and> token example_client = ''''
   \<and> call (\<lambda>url. None) example_client (RegisterRenter (Inr ''{}'')) =
       Inr \<lparr>Method = ''POST'', URL = ''http://meta:8001/renters'',
            Header = [(''Content-Type'', ''application/json'')], Body = Some ''{}''\<rparr>"
  by (simp add: example_client_def Post_def NewRequest_def)

text \<open>
  Claim C8, amended. Every mutating call other than the two registrations
  (\<open>RegisterProvider\<close>, \<open>RegisterRenter\<close>), and every read below
  \<open>/renters/<id>\<close>, needs a token: with no token held it fails with the error "must
  authorize before calling this method" and sends nothing, and a request it sends
  carries the header \<open>Authorization: Bearer <token>\<close>.
\<close>

theorem calls_require_authorization:
  assumes "mutating op \<or> renterRead op" and "\<not> registration op"
  shows "(token c = '''' \<longrightarrow> call u c op = Inl MustAuthorize)
       \<and> (\<forall>req. call u c op = Inr req \<longrightarrow>
             token c \<noteq> ''''
             \<and> (''Authorization'', ''Bearer '' @ token c) \<in> set (Header req))"
  using assms
  by (cases op;
      auto simp: authorized_def NewRequest_def
           split: if_splits option.splits sum.splits)

text \<open>
  A client without a token, and the same client after it has obtained one.
\<close>

theorem authorization_example:
  "mutating (PostFile ''alice'' (Inr ''{}''))
   \<and> renterRead (GetFiles ''alice'')
   \<and> call (\<lambda>url. None) example_client (PostFile ''alice'' (Inr ''{}'')) = Inl MustAuthorize
   \<and> call (\<lambda>url. None) example_client (GetFiles ''alice'') = Inl MustAuthorize
   \<and> call (\<lambda>url. None) (example_client\<lparr>token := ''t0k''\<rparr>) (PostFile ''alice'' (Inr ''{}'')) =
       Inr \<lparr>Method = ''POST'', URL = ''http://meta:8001/renters/alice/files'',
            Header = [(''Authorization'', ''Bearer t0k'')], Body = Some ''{}''\<rparr>
   \<and> (''Authorization'', ''Bearer t0k'') \<in> set [(''Authorization'', ''Bearer t0k'')]"
proof -
  have m: "mutating (PostFile ''alice'' (Inr ''{}'')) \<or> renterRead (PostFile ''alice'' (Inr ''{}''))"
    and r: "mutating (GetFiles ''alice'') \<or> renterRead (GetFiles ''alice'')"
    and nr: "\<not> registration (PostFile ''alice'' (Inr ''{}''))" "\<not> registration (GetFiles ''alice'')"
    by simp_all
  have empty: "token example_client = ''''"
    by (simp add: example_client_def)
  have sent: "call (\<lambda>url. None) (example_client\<lparr>token := ''t0k''\<rparr>)
      (PostFile ''alice'' (Inr ''{}'')) =
       Inr \<lparr>Method = ''POST'', URL = ''http://meta:8001/renters/alice/files'',
            Header = [(''Authorization'', ''Bearer t0k'')], Body = Some ''{}''\<rparr>"
    by (simp add: example_client_def authorized_def NewRequest_def)
  have "call (\<lambda>url. None) example_client (PostFile ''alice'' (Inr ''{}'')) = Inl MustAuthorize"
    using calls_require_authorization [OF m nr(1), of example_client "\<lambda>url. None"] empty
    by blast
  moreover
  have "call (\<lambda>url. None) example_client (GetFiles ''alice'') = Inl MustAuthorize"
    using calls_require_authorization [OF r nr(2), of example_client "\<lambda>url. None"] empty
    by blast
  moreover
  have "(''Authorization'', ''Bearer '' @ token (example_client\<lparr>token := ''t0k''\<rparr>))
      \<in> set (Header \<lparr>Method = ''POST'', URL = ''http://meta:8001/renters/alice/files'',
            Header = [(''Authorization'', ''Bearer t0k'')], Body = Some ''{}''\<rparr>)"
    using calls_require_authorization [OF m nr(1), of "example_client\<lparr>token := ''t0k''\<rparr>"
        "\<lambda>url. None"] sent
    by blast
  then have "(''Authorization'', ''Bearer t0k'') \<in> set [(''Authorization'', ''Bearer t0k'')]"
    by simp
  ultimately show ?thesis
    using sent by simp
qed

section \<open>Properties of the padding\<close>

lemma shardSize_ceiling:
  "shardSize L k = \<lceil>real_of_int L / real_of_int k\<rceil>"
  by (simp add: shardSize_def ceiling_divide_eq_div)

lemma padding_remainder: "padding L k = (- L) mod k"
proof -
  define q where "q = (- L) div k"
  define r where "r = (- L) mod k"
  have L: "- L = q * k + r"
    by (simp add: q_def r_def)
  have "padding L k = (- q) * k - L"
    by (simp add: padding_def shardSize_def q_def)
  also have "\<dots> = r"
    using L by simp
  finally show ?thesis
    by (simp add: r_def)
qed

lemma padding_lt_shard_iff:
  "padding L k < shardSize L k \<longleftrightarrow> (k - 1) * shardSize L k < L"
  by (simp add: padding_def algebra_simps)

text \<open>
  Claim C7, as stated, fails for a stream of nine bytes and four data shards: the shard
  size is 3 and the padding is 3.
\<close>

theorem padding_exceeds_shard: "\<not> padding 9 4 < shardSize 9 4"
  by (simp add: padding_def shardSize_def)

text \<open>
  Claim C7, amended. For \<open>L > 0\<close> and \<open>k \<ge> 1\<close>, with \<open>s = \<lceil>L / k\<rceil>\<close> and
  \<open>padding = s\<cdot>k - L\<close>: \<open>s\<cdot>k - L = padding\<close> and \<open>0 \<le> padding\<close>, and
  \<open>padding < s\<close> whenever \<open>(k - 1)\<cdot>s < L\<close>, in particular whenever
  \<open>L > (k - 1)\<^sup>2\<close>.
\<close>

theorem padding_bounds:
  assumes "0 < L" and "1 \<le> k"
  shows "shardSize L k * k - L = padding L k
       \<and> 0 \<le> padding L k
       \<and> ((k - 1) * shardSize L k < L \<longrightarrow> padding L k < shardSize L k)
       \<and> ((k - 1) * (k - 1) < L \<longrightarrow> padding L k < shardSize L k)"
proof -
  have k: "0 < k" using assms(2) by simp
  have pad: "padding L k = (- L) mod k"
    by (rule padding_remainder)
  have nonneg: "0 \<le> padding L k" and small: "padding L k \<le> k - 1"
    using k by (simp_all add: pad)
  have large: "(k - 1) * shardSize L k < L" if "(k - 1) * (k - 1) < L"
  proof -
    have sk: "shardSize L k * k = L + padding L k"
      by (simp add: padding_def)
    have "(k - 1) * (L + padding L k) \<le> (k - 1) * (L + (k - 1))"
      using small assms(2) by (intro mult_left_mono) simp_all
    also have "\<dots> = (k - 1) * L + (k - 1) * (k - 1)"
      by (simp add: algebra_simps)
    also have "\<dots> < (k - 1) * L + L"
      using that by simp
    also have "\<dots> = k * L"
      by (simp add: algebra_simps)
    finally have "(k - 1) * (shardSize L k * k) < k * L"
      by (simp add: sk)
    then have "k * ((k - 1) * shardSize L k) < k * L"
      by (simp add: algebra_simps)
    then show ?thesis
      using k by simp
  qed
  show ?thesis
    using nonneg large padding_lt_shard_iff [of L k] by (simp add: padding_def)
qed

text \<open>
  Ten bytes in four shards, and six bytes in three.
\<close>

theorem padding_example:
  "(0 :: int) < 10 \<and> (1 :: int) \<le> 4
   \<and> shardSize 10 4 = 3 \<and> padding 10 4 = 2
   \<and> (4 - 1) * shardSize 10 4 < 10
   \<and> (4 - 1) * (4 - 1) < (10 :: int)
   \<and> shardSize 10 4 * 4 - 10 = padding 10 4
   \<and> 0 \<le> padding 10 4 \<and> padding 10 4 < shardSize 10 4
   \<and> shardSize 6 3 = 2 \<and> padding 6 3 = 0 \<and> padding 6 3 < shardSize 6 3"
proof -
  have L: "(0 :: int) < 10" and k: "(1 :: int) \<le> 4"
    and L': "(0 :: int) < 6" and k': "(1 :: int) \<le> 3"
    by simp_all
  have s: "shardSize 10 4 = 3" and p: "padding 10 4 = 2"
    and s': "shardSize 6 3 = 2" and p': "padding 6 3 = 0"
    by (simp_all add: padding_def shardSize_def)
  from padding_bounds [OF L k] padding_bounds [OF L' k'] show ?thesis
    using s p s' p' by simp
qed

end
